theory Spec2Isabelle
  imports Complex_Main
begin

section \<open>The self-correction loop (architecture listing, \<open>answer_with_self_correction\<close>)\<close>

text \<open>
  The listing of \<open>EnhancedMultiAgentService.answer_with_self_correction\<close>:
  \<^verbatim>\<open>
  async def answer_with_self_correction(self, question: str) -> Dict:
      max_attempts = 3
      for attempt in range(max_attempts):
          query = await self._generate_query(question)
          result = self._execute_query(query)

          if result["success"]:
              return self._format_success_response(result)
          elif attempt < max_attempts - 1:
              query = await self._fix_query(query, result["error"])
          else:
              return self._format_error_response(attempts)
  \<close>
  The three collaborators \<open>_generate_query\<close>, \<open>_execute_query\<close> and \<open>_fix_query\<close>
  are not part of the listing. They talk to the language model and to the backend, so
  each of them is a function of an explicit world state \<open>'w\<close> that it may change; they
  are the fields of the record \<open>services\<close>.

  An execution result is a dictionary with a \<open>success\<close> flag and, on failure, an
  \<open>error\<close>; the listing reads nothing else of it.
\<close>

datatype ('e, 'r) exec_result = Failed 'e | Ok 'r

record ('e, 'r, 'w) services =
  generate_query :: "string \<Rightarrow> 'w \<Rightarrow> string \<times> 'w"
  execute_query :: "string \<Rightarrow> 'w \<Rightarrow> ('e, 'r) exec_result \<times> 'w"
  fix_query :: "string \<Rightarrow> 'e \<Rightarrow> 'w \<Rightarrow> string \<times> 'w"

text \<open>
  \<open>_format_success_response\<close> only wraps the result. The last line of the listing reads
  the name \<open>attempts\<close> (the loop variable is \<open>attempt\<close>), which is bound nowhere in
  it: evaluating the argument raises \<open>NameError\<close> before \<open>_format_error_response\<close> is
  called, so the function ends in one of three ways: it returns a success response, it
  raises, or (for an empty range of attempts) it falls off its end and returns \<open>None\<close>.
\<close>

datatype 'r response = SuccessResponse 'r

datatype py_exception = NameError string

text \<open>
  The \<open>for\<close> loop over \<open>range(max_attempts)\<close> is a recursion over the list of the
  attempt numbers. The query returned by \<open>_fix_query\<close> is assigned to \<open>query\<close>, and
  the next iteration assigns \<open>query\<close> again before reading it.
\<close>

fun attempt_loop ::
  "('e, 'r, 'w) services \<Rightarrow> string \<Rightarrow> nat \<Rightarrow> nat list \<Rightarrow> 'w
    \<Rightarrow> (py_exception + 'r response option) \<times> 'w" where
  "attempt_loop S question max_attempts [] w = (Inr None, w)"
| "attempt_loop S question max_attempts (attempt # rest) w =
     (case generate_query S question w of (query, w1) \<Rightarrow>
      (case execute_query S query w1 of
         (Ok r, w2) \<Rightarrow> (Inr (Some (SuccessResponse r)), w2)
       | (Failed e, w2) \<Rightarrow>
           if int attempt < int max_attempts - 1 then
             (case fix_query S query e w2 of (query', w3) \<Rightarrow>
                attempt_loop S question max_attempts rest w3)
           else (Inl (NameError ''attempts''), w2)))"

definition answer_with_self_correction ::
  "('e, 'r, 'w) services \<Rightarrow> string \<Rightarrow> 'w \<Rightarrow> (py_exception + 'r response option) \<times> 'w" where
  "answer_with_self_correction S question w =
     (let max_attempts = 3 in
      attempt_loop S question max_attempts [0..<max_attempts] w)"

text \<open>
  What the collaborators were asked and what they answered is observed the way a test
  observes it: each collaborator is wrapped in a spy that does the call and then appends
  it, with its answer, to a call log kept in the world. The loop itself never touches the
  log; a call is in the log if and only if the collaborator was called.
\<close>

datatype ('e, 'r) call =
  Generate string string
  | Execute string "('e, 'r) exec_result"
  | Fix string 'e string

definition recording ::
  "('e, 'r, 'w) services \<Rightarrow> ('e, 'r, 'w \<times> ('e, 'r) call list) services" where
  "recording S =
     \<lparr>generate_query = (\<lambda>question (w, calls).
        case generate_query S question w of
          (q, w') \<Rightarrow> (q, (w', calls @ [Generate question q]))),
      execute_query = (\<lambda>q (w, calls).
        case execute_query S q w of
          (res, w') \<Rightarrow> (res, (w', calls @ [Execute q res]))),
      fix_query = (\<lambda>q e (w, calls).
        case fix_query S q e w of
          (q', w') \<Rightarrow> (q', (w', calls @ [Fix q e q'])))\<rparr>"

text \<open>Reading a finished run of recorded collaborators.\<close>

definition run_completion :: "'c \<times> 'w \<times> 'l \<Rightarrow> 'c" where
  "run_completion run = fst run"

definition run_world :: "'c \<times> 'w \<times> 'l \<Rightarrow> 'w" where
  "run_world run = fst (snd run)"

definition run_log :: "'c \<times> 'w \<times> 'l \<Rightarrow> 'l" where
  "run_log run = snd (snd run)"

fun executions :: "('e, 'r) call list \<Rightarrow> string list" where
  "executions [] = []"
| "executions (Execute q res # cs) = q # executions cs"
| "executions (c # cs) = executions cs"

fun corrections :: "('e, 'r) call list \<Rightarrow> (string \<times> 'e) list" where
  "corrections [] = []"
| "corrections (Fix q e q' # cs) = (q, e) # corrections cs"
| "corrections (c # cs) = corrections cs"

text \<open>The executions and the corrections of a log, without the generations.\<close>

fun without_generation :: "('e, 'r) call list \<Rightarrow> ('e, 'r) call list" where
  "without_generation [] = []"
| "without_generation (Generate question q # cs) = without_generation cs"
| "without_generation (c # cs) = c # without_generation cs"

text \<open>A backend that rejects every query, whatever the state of the world.\<close>

definition always_fails :: "('e, 'r, 'w) services \<Rightarrow> bool" where
  "always_fails S = (\<forall>q w. \<exists>e w'. execute_query S q w = (Failed e, w'))"

text \<open>
  Modelled from the spec: the kinds of an \<open>ExecutionError\<close> (section 7 of the
  specification). The listing above passes \<open>result["error"]\<close> on to \<open>_fix_query\<close> and
  never inspects it, so the loop is polymorphic in the type of errors; this record is the
  instance the statements about error kinds use.
\<close>

datatype error_kind = Syntax | Permission | Timeout | Connection

record exec_error =
  kind :: error_kind
  message :: string

section \<open>The similarity cache (architecture listing, \<open>CacheManager\<close>)\<close>

text \<open>
  \<^verbatim>\<open>
  class CacheManager:
      def __init__(self):
          self.schema_cache = {}
          self.query_cache = {}
          self.similarity_threshold = 0.8

      def get_similar_query(self, question: str) -> Optional[Dict]:
          for cached_q, result in self.query_cache.items():
              similarity = self._calculate_similarity(question, cached_q)
              if similarity > self.similarity_threshold:
                  return result
          return None
  \<close>
  A Python dictionary iterates in insertion order, so \<open>query_cache\<close> is the list of its
  items. \<open>_calculate_similarity\<close> is not part of the listing and is a parameter. Its
  values and the threshold are floats; the order of two floats (NaN apart) is the order
  of the numbers they denote, so both are rationals here, and the literal \<open>0.8\<close> and a
  similarity that is the same float are the same rational.
\<close>

record ('s, 'c) cache_manager =
  schema_cache :: "(string \<times> 's) list"
  query_cache :: "(string \<times> 'c) list"
  similarity_threshold :: rat

definition CacheManager_init :: "('s, 'c) cache_manager" where
  "CacheManager_init =
     \<lparr>schema_cache = [], query_cache = [], similarity_threshold = 8 / 10\<rparr>"

fun similar_loop :: "(string \<Rightarrow> string \<Rightarrow> rat) \<Rightarrow> rat \<Rightarrow> string \<Rightarrow> (string \<times> 'c) list \<Rightarrow> 'c option" where
  "similar_loop calculate_similarity threshold question [] = None"
| "similar_loop calculate_similarity threshold question ((cached_q, result) # items) =
     (let similarity = calculate_similarity question cached_q in
      if similarity > threshold then Some result
      else similar_loop calculate_similarity threshold question items)"

definition get_similar_query ::
  "(string \<Rightarrow> string \<Rightarrow> rat) \<Rightarrow> ('s, 'c) cache_manager \<Rightarrow> string \<Rightarrow> 'c option" where
  "get_similar_query calculate_similarity self question =
     similar_loop calculate_similarity (similarity_threshold self) question (query_cache self)"

text \<open>
  Modelled from the spec: a similarity cache entry (\<open>CacheEntry\<close>, section 3 of the
  specification) remembers the query and its language; the listing's cached value is an
  untyped dictionary.
\<close>

record cache_entry =
  entry_query :: string
  entry_language :: string

text \<open>
  Modelled from the spec: \<open>_generate_query\<close>, which is not in the sources, and with it
  the place where the orchestrator consults the similarity cache. Sections 3 and 4.7 of
  the specification: the orchestrator checks the similarity cache first; a hit seeds the
  candidate query from the cached entry and skips generation (no completion call, so the
  world is left as it is), and the candidate is then executed; a miss calls the query
  generator. The lookup is \<open>get_similar_query\<close> of the listing; the generator proper is
  the \<open>generate_query\<close> of the services that are wrapped.
\<close>

definition cache_first ::
  "(string \<Rightarrow> string \<Rightarrow> rat) \<Rightarrow> ('s, cache_entry) cache_manager
    \<Rightarrow> ('e, 'r, 'w) services \<Rightarrow> ('e, 'r, 'w) services" where
  "cache_first calculate_similarity cache S =
     S\<lparr>generate_query := (\<lambda>question w.
          case get_similar_query calculate_similarity cache question of
            Some entry \<Rightarrow> (entry_query entry, w)
          | None \<Rightarrow> generate_query S question w)\<rparr>"

section \<open>The executor's row limit (architecture listing, \<open>FabricService.execute_query\<close>)\<close>






section \<open>Query validation (architecture listing, \<open>validate_query\<close>)\<close>

text \<open>
  \<^verbatim>\<open>
  def validate_query(query: str, query_type: str) -> bool:
      dangerous_keywords = ["DROP", "DELETE", "UPDATE", "INSERT", "TRUNCATE"]

      if query_type == "sql":
          return not any(keyword in query.upper() for keyword in dangerous_keywords)
      elif query_type == "dax":
          return query.strip().upper().startswith("EVALUATE")
  \<close>
  A string is a list of characters with codes below 256. \<open>strip\<close> removes, at both
  ends, the characters for which Python's \<open>str.isspace\<close> holds: of these codes, 9 to
  13, 28 to 32, 133 and 160. \<open>upper\<close> maps the 26 lower-case letters of ASCII to
  their capitals; a character above 127 is left alone here, where Python maps it to a
  capital that is not an ASCII letter either (or, for code 223, to \<open>SS\<close>), which
  neither makes nor breaks an occurrence of a keyword or of \<open>EVALUATE\<close>. For a
  \<open>query_type\<close> other than the two named, the function falls off its end and returns
  \<open>None\<close>.
\<close>

definition py_upper_char :: "char \<Rightarrow> char" where
  "py_upper_char c =
     (case map_of (zip ''abcdefghijklmnopqrstuvwxyz'' ''ABCDEFGHIJKLMNOPQRSTUVWXYZ'') c of
        Some u \<Rightarrow> u
      | None \<Rightarrow> c)"

definition py_upper :: "string \<Rightarrow> string" where
  "py_upper s = map py_upper_char s"

definition py_isspace :: "char \<Rightarrow> bool" where
  "py_isspace c =
     (c \<in> set [CHR 0x09, CHR 0x0A, CHR 0x0B, CHR 0x0C, CHR 0x0D,
                CHR 0x1C, CHR 0x1D, CHR 0x1E, CHR 0x1F, CHR 0x20, CHR 0x85, CHR 0xA0])"

definition py_strip :: "string \<Rightarrow> string" where
  "py_strip s = rev (dropWhile py_isspace (rev (dropWhile py_isspace s)))"

definition startswith :: "string \<Rightarrow> string \<Rightarrow> bool" where
  "startswith s p = (take (length p) s = p)"

fun py_in :: "string \<Rightarrow> string \<Rightarrow> bool" where
  "py_in sub [] = (sub = [])"
| "py_in sub (c # cs) = (startswith (c # cs) sub \<or> py_in sub cs)"

definition dangerous_keywords :: "string list" where
  "dangerous_keywords = [''DROP'', ''DELETE'', ''UPDATE'', ''INSERT'', ''TRUNCATE'']"

definition validate_query :: "string \<Rightarrow> string \<Rightarrow> bool option" where
  "validate_query query query_type =
     (if query_type = ''sql'' then
        Some (\<not> list_ex (\<lambda>keyword. py_in keyword (py_upper query)) dangerous_keywords)
      else if query_type = ''dax'' then
        Some (startswith (py_upper (py_strip query)) ''EVALUATE'')
      else None)"

section \<open>The conversation context of the chat (\<open>EnhancedChatInterface.tsx\<close>, \<open>sendMessage\<close>)\<close>

text \<open>
  The parts of \<open>sendMessage\<close> that read or write the conversation context:
  \<^verbatim>\<open>
  const [conversationContext, setConversationContext] = useState<string[]>([]);

  const sendMessage = async (messageText?: string) => {
    const question = messageText || input;
    if (!question.trim() || loading) return;
    ...
    if (!messageText) setInput('');
    setLoading(true);
    ...
    try {
      const response = await axios.post(..., { question: question, ...,
        context_history: conversationContext, ... });
      const result = response.data;
      ...
      // Update conversation context
      if (result.success && result.query) {
        const contextEntry =
          `Q: ${question}\n${result.query_language || 'Query'}: ${result.query}`;
        setConversationContext(prev => [...prev.slice(-2), contextEntry]);
      }
      ...
    } catch (error: any) {
      ...
    } finally {
      setLoading(false);
    }
  };
  \<close>
  The message list, the suggestions and the console output are written by the function
  and read nowhere in it; they are not part of the state modelled here.

  A value of the response that may be absent is an \<open>option\<close>; a string is truthy in
  JavaScript when it is present and not empty.
\<close>

definition js_truthy_string :: "string option \<Rightarrow> bool" where
  "js_truthy_string s = (case s of None \<Rightarrow> False | Some t \<Rightarrow> t \<noteq> [])"

text \<open>\<open>a || b\<close> for a string \<open>a\<close> that may be absent and a string \<open>b\<close>.\<close>

definition js_or :: "string option \<Rightarrow> string \<Rightarrow> string" where
  "js_or a b = (case a of None \<Rightarrow> b | Some t \<Rightarrow> if t \<noteq> [] then t else b)"

text \<open>
  \<open>Array.prototype.slice(start)\<close>: a negative \<open>start\<close> counts from the end and stops at
  the first element, a positive one stops at the length.
\<close>

definition js_slice :: "int \<Rightarrow> 'a list \<Rightarrow> 'a list" where
  "js_slice start xs =
     (let len = int (length xs);
          k = (if start < 0 then max (len + start) 0 else min start len)
      in drop (nat k) xs)"

text \<open>
  \<open>String.prototype.trim\<close> removes white space and line terminators at both ends; of
  the characters with codes below 256 these are the codes 9 to 13, 32 and 160 (the
  no-break space).
\<close>

definition js_isspace :: "char \<Rightarrow> bool" where
  "js_isspace c =
     (c \<in> set [CHR 0x09, CHR 0x0A, CHR 0x0B, CHR 0x0C, CHR 0x0D, CHR 0x20, CHR 0xA0])"

definition js_trim :: "string \<Rightarrow> string" where
  "js_trim s = rev (dropWhile js_isspace (rev (dropWhile js_isspace s)))"

record api_result =
  success :: bool
  query :: "string option"
  query_language :: "string option"

text \<open>What the request came to: a response, or an exception that the \<open>catch\<close> handles.\<close>

datatype outcome = Responded api_result | Threw

record chat_state =
  input :: string
  loading :: bool
  conversationContext :: "string list"

definition initial_chat_state :: chat_state where
  "initial_chat_state = \<lparr>input = [], loading = False, conversationContext = []\<rparr>"

definition contextEntry :: "string \<Rightarrow> api_result \<Rightarrow> string" where
  "contextEntry question result =
     ''Q: '' @ question @ [CHR 0x0A]
       @ js_or (query_language result) ''Query''
       @ '': '' @ (case query result of Some q \<Rightarrow> q | None \<Rightarrow> ''undefined'')"

definition update_context :: "string \<Rightarrow> string list \<Rightarrow> string list" where
  "update_context entry prev = js_slice (- 2) prev @ [entry]"

definition sendMessage :: "string option \<Rightarrow> outcome \<Rightarrow> chat_state \<Rightarrow> chat_state" where
  "sendMessage messageText out st =
     (let question = js_or messageText (input st) in
      if js_trim question = [] \<or> loading st then st
      else
        (let st1 = st\<lparr>input := (if js_truthy_string messageText then input st else []),
                       loading := True\<rparr>;
             st2 = (case out of
                      Responded result \<Rightarrow>
                        if success result \<and> js_truthy_string (query result) then
                          st1\<lparr>conversationContext :=
                                update_context (contextEntry question result)
                                  (conversationContext st1)\<rparr>
                        else st1
                    | Threw \<Rightarrow> st1)
         in st2\<lparr>loading := False\<rparr>))"

text \<open>
  The events of the chat that touch the state above: a message sent (with the outcome
  of its request), the input box edited, and the "clear context" button
  (\<open>onClick={() => setConversationContext([])}\<close>).
\<close>

datatype chat_event = Send "string option" outcome | Edit string | ClearContext

fun chat_step :: "chat_state \<Rightarrow> chat_event \<Rightarrow> chat_state" where
  "chat_step st (Send messageText out) = sendMessage messageText out st"
| "chat_step st (Edit text) = st\<lparr>input := text\<rparr>"
| "chat_step st ClearContext = st\<lparr>conversationContext := []\<rparr>"

definition run_chat :: "chat_event list \<Rightarrow> chat_state" where
  "run_chat events = foldl chat_step initial_chat_state events"

text \<open>
  The component calls \<open>sendMessage()\<close> without an argument, from the Enter key and from
  the send button, after the question has been typed (or a suggestion clicked) into the
  input box. The events of one such turn, with the response it gets:
\<close>

definition typed_turn :: "string \<times> api_result \<Rightarrow> chat_event list" where
  "typed_turn t = [Edit (fst t), Send None (Responded (snd t))]"

section \<open>Cells of the data table and of the CSV export (\<open>VirtualizedDataTable.tsx\<close>)\<close>

text \<open>
  \<^verbatim>\<open>
  const exportToCSV = useCallback(() => {
    if (!processedData.length) return;

    const csvContent = [
      columns.join(','),
      ...processedData.map(row =>
        columns.map(col => `"${String(row[col] || '').replace(/"/g, '""')}"`).join(',')
      )
    ].join('\n');
    ... (the content is offered as a download)
  }, [processedData, columns, onExport]);

  const Row = useCallback(({ index, style }) => {
    const row = processedData[index];
    ...
        {columns.map((col, colIndex) => (
          <div ... title={String(row[col] || '')}>
            {String(row[col] || '')}
          </div>
        ))}
  \<close>
  The table inlined in \<open>EnhancedChatInterface.tsx\<close> builds the same \<open>csvContent\<close>,
  without the test for an empty table, and renders each cell as
  \<open>String(row[col] || '')\<close> too.

  A cell holds a JavaScript value. The numbers of the model are the safe integers
  (magnitude at most \<open>2\<^sup>5\<^sup>3 - 1\<close>), which \<open>String\<close> prints in decimal, and \<open>NaN\<close>;
  the other numbers are all truthy and are left out. An object prints as
  \<open>[object Object]\<close>, a built-in function as \<open>function name() { [native code] }\<close>.
\<close>

typedef safe_integer = "{n :: int. \<bar>n\<bar> \<le> 9007199254740991}"
  by (rule exI [of _ 0]) simp

datatype js_value =
  JUndefined | JNull | JBool bool | JNumber safe_integer | JNaN | JString string
  | JObject | JFunction string

text \<open>The number that is the safe integer \<open>n\<close>.\<close>

definition js_number :: "int \<Rightarrow> js_value" where
  "js_number n = JNumber (Abs_safe_integer n)"

fun js_truthy :: "js_value \<Rightarrow> bool" where
  "js_truthy JUndefined = False"
| "js_truthy JNull = False"
| "js_truthy (JBool b) = b"
| "js_truthy (JNumber n) = (Rep_safe_integer n \<noteq> 0)"
| "js_truthy JNaN = False"
| "js_truthy (JString s) = (s \<noteq> [])"
| "js_truthy JObject = True"
| "js_truthy (JFunction name) = True"

fun nat_to_string :: "nat \<Rightarrow> string" where
  "nat_to_string n =
     (if n < 10 then [''0123456789'' ! n]
      else nat_to_string (n div 10) @ [''0123456789'' ! (n mod 10)])"

fun js_String :: "js_value \<Rightarrow> string" where
  "js_String JUndefined = ''undefined''"
| "js_String JNull = ''null''"
| "js_String (JBool b) = (if b then ''true'' else ''false'')"
| "js_String (JNumber n) =
     (if Rep_safe_integer n < 0 then ''-'' @ nat_to_string (nat (- Rep_safe_integer n))
      else nat_to_string (nat (Rep_safe_integer n)))"
| "js_String JNaN = ''NaN''"
| "js_String (JString s) = s"
| "js_String JObject = ''[object Object]''"
| "js_String (JFunction name) = ''function '' @ name @ ''() { [native code] }''"

definition js_or_empty :: "js_value \<Rightarrow> js_value" where
  "js_or_empty v = (if js_truthy v then v else JString [])"

text \<open>
  A row is an object parsed from JSON: the list of its own properties. \<open>row[col]\<close>
  reads an own property if there is one, else the property that the object inherits
  from \<open>Object.prototype\<close>, else gives \<open>undefined\<close>.
\<close>

definition Object_prototype :: "(string \<times> js_value) list" where
  "Object_prototype =
     [(''constructor'', JFunction ''Object''),
      (''__defineGetter__'', JFunction ''__defineGetter__''),
      (''__defineSetter__'', JFunction ''__defineSetter__''),
      (''hasOwnProperty'', JFunction ''hasOwnProperty''),
      (''__lookupGetter__'', JFunction ''__lookupGetter__''),
      (''__lookupSetter__'', JFunction ''__lookupSetter__''),
      (''isPrototypeOf'', JFunction ''isPrototypeOf''),
      (''propertyIsEnumerable'', JFunction ''propertyIsEnumerable''),
      (''toString'', JFunction ''toString''),
      (''valueOf'', JFunction ''valueOf''),
      (''__proto__'', JObject),
      (''toLocaleString'', JFunction ''toLocaleString'')]"

definition row_get :: "(string \<times> js_value) list \<Rightarrow> string \<Rightarrow> js_value" where
  "row_get row col =
     (case map_of row col of
        Some v \<Rightarrow> v
      | None \<Rightarrow> (case map_of Object_prototype col of Some v \<Rightarrow> v | None \<Rightarrow> JUndefined))"

definition cell_text :: "(string \<times> js_value) list \<Rightarrow> string \<Rightarrow> string" where
  "cell_text row col = js_String (js_or_empty (row_get row col))"

definition render_row :: "string list \<Rightarrow> (string \<times> js_value) list \<Rightarrow> string list" where
  "render_row columns row = map (cell_text row) columns"

definition double_quotes :: "string \<Rightarrow> string" where
  "double_quotes s = concat (map (\<lambda>c. if c = CHR 0x22 then [CHR 0x22, CHR 0x22] else [c]) s)"

fun join :: "string \<Rightarrow> string list \<Rightarrow> string" where
  "join sep [] = []"
| "join sep [x] = x"
| "join sep (x # y # ys) = x @ sep @ join sep (y # ys)"

definition csv_field :: "(string \<times> js_value) list \<Rightarrow> string \<Rightarrow> string" where
  "csv_field row col = [CHR 0x22] @ double_quotes (cell_text row col) @ [CHR 0x22]"

definition csvContent :: "string list \<Rightarrow> (string \<times> js_value) list list \<Rightarrow> string" where
  "csvContent columns processedData =
     join [CHR 0x0A]
       (join '','' columns
        # map (\<lambda>row. join '','' (map (csv_field row) columns)) processedData)"

text \<open>The export of \<open>VirtualizedDataTable.tsx\<close>: nothing is downloaded for an empty table.\<close>

definition exportToCSV :: "string list \<Rightarrow> (string \<times> js_value) list list \<Rightarrow> string option" where
  "exportToCSV columns processedData =
     (if length processedData = 0 then None else Some (csvContent columns processedData))"

text \<open>The export of the table inlined in \<open>EnhancedChatInterface.tsx\<close>.\<close>

definition exportToCSV_inline :: "string list \<Rightarrow> (string \<times> js_value) list list \<Rightarrow> string option" where
  "exportToCSV_inline columns processedData = Some (csvContent columns processedData)"

section \<open>Test doubles\<close>

text \<open>
  Collaborators with a script, for the concrete runs below. The world is the number of
  queries the backend has executed. \<open>scripted_services q res repair\<close> generates the
  query \<open>q\<close> for every question, answers every execution with \<open>res\<close>, and repairs a
  failed query \<open>query\<close> to \<open>repair query\<close>.
\<close>

definition scripted_services ::
  "string \<Rightarrow> ('e, 'r) exec_result \<Rightarrow> (string \<Rightarrow> string) \<Rightarrow> ('e, 'r, nat) services" where
  "scripted_services q res repair =
     \<lparr>generate_query = (\<lambda>question w. (q, w)),
      execute_query = (\<lambda>query w. (res, Suc w)),
      fix_query = (\<lambda>query e w. (repair query, w))\<rparr>"

definition invalid_column :: exec_error where
  "invalid_column = \<lparr>kind = Syntax, message = ''Invalid column name Rev''\<rparr>"

definition login_timeout :: exec_error where
  "login_timeout = \<lparr>kind = Connection, message = ''Login timeout expired''\<rparr>"

text \<open>A backend whose table grows: the \<open>n\<close>-th execution returns \<open>n + 1\<close> rows.\<close>

definition growing_services :: "string \<Rightarrow> (exec_error, nat list, nat) services" where
  "growing_services q =
     \<lparr>generate_query = (\<lambda>question w. (q, w)),
      execute_query = (\<lambda>query w. (Ok [0..<Suc w], Suc w)),
      fix_query = (\<lambda>query e w. (query, w))\<rparr>"

text \<open>
  A cache that holds one earlier question, a cache that holds two, and three
  similarity measures.
\<close>

definition warm_cache :: "(unit, cache_entry) cache_manager" where
  "warm_cache =
     CacheManager_init
       \<lparr>query_cache :=
          [(''show top 2 customers by revenue'',
            \<lparr>entry_query = ''SELECT TOP 2 Name FROM Customers ORDER BY Revenue DESC'',
             entry_language = ''T-SQL''\<rparr>)]\<rparr>"

definition two_entry_cache :: "(unit, cache_entry) cache_manager" where
  "two_entry_cache =
     CacheManager_init
       \<lparr>query_cache :=
          [(''show top 2 customers by revenue'',
            \<lparr>entry_query = ''SELECT TOP 2 Name FROM Customers ORDER BY Revenue DESC'',
             entry_language = ''T-SQL''\<rparr>),
           (''total sales by region'',
            \<lparr>entry_query = ''SELECT Region, SUM(Amount) FROM Sales GROUP BY Region'',
             entry_language = ''T-SQL''\<rparr>)]\<rparr>"

definition same_text_similarity :: "string \<Rightarrow> string \<Rightarrow> rat" where
  "same_text_similarity a b = (if a = b then 1 else 0)"

definition four_fifths_similarity :: "string \<Rightarrow> string \<Rightarrow> rat" where
  "four_fifths_similarity a b = 4 / 5"

definition always_similar :: "string \<Rightarrow> string \<Rightarrow> rat" where
  "always_similar a b = 1"

text \<open>Responses of the chat endpoint: a successful one with its query, and a failed one.\<close>

definition ok_result :: "string \<Rightarrow> api_result" where
  "ok_result q = \<lparr>success = True, query = Some q, query_language = Some ''T-SQL''\<rparr>"

definition failed_result :: api_result where
  "failed_result = \<lparr>success = False, query = None, query_language = None\<rparr>"



section \<open>The runs of the self-correction loop\<close>

text \<open>
  A recorded collaborator does what the collaborator does and appends the call to the
  log. One attempt of the loop, and with it a whole run, is then determined by what the
  collaborators answer: the run ends with the first execution that succeeds, or with
  the third that fails.
\<close>

lemma attempts_range: "[0..<3] = [0, 1, 2::nat]"
  by (simp add: eval_nat_numeral)

lemma always_failsD:
  "always_fails S \<Longrightarrow> \<exists>e w'. execute_query S q w = (Failed e, w')"
  by (simp add: always_fails_def)

lemma always_fails_scripted: "always_fails (scripted_services q (Failed e) repair)"
  by (simp add: always_fails_def scripted_services_def)

lemma recorded_generate:
  "generate_query S question w = (q, w1) \<Longrightarrow>
   generate_query (recording S) question (w, calls) = (q, (w1, calls @ [Generate question q]))"
  by (simp add: recording_def)

lemma recorded_execute:
  "execute_query S q w = (res, w1) \<Longrightarrow>
   execute_query (recording S) q (w, calls) = (res, (w1, calls @ [Execute q res]))"
  by (simp add: recording_def)

lemma recorded_fix:
  "fix_query S q e w = (q', w1) \<Longrightarrow>
   fix_query (recording S) q e (w, calls) = (q', (w1, calls @ [Fix q e q']))"
  by (simp add: recording_def)

lemma attempt_succeeds:
  assumes "generate_query S question w = (q, w1)"
    and "execute_query S q w1 = (Ok r, w2)"
  shows "attempt_loop (recording S) question m (k # ks) (w, calls)
         = (Inr (Some (SuccessResponse r)),
            (w2, calls @ [Generate question q, Execute q (Ok r)]))"
  using recorded_generate [OF assms(1), of calls]
    recorded_execute [OF assms(2), of "calls @ [Generate question q]"]
  by simp

lemma attempt_fails_and_goes_on:
  assumes "generate_query S question w = (q, w1)"
    and "execute_query S q w1 = (Failed e, w2)"
    and "fix_query S q e w2 = (q', w3)"
    and "int k < int m - 1"
  shows "attempt_loop (recording S) question m (k # ks) (w, calls)
         = attempt_loop (recording S) question m ks
             (w3, calls @ [Generate question q, Execute q (Failed e), Fix q e q'])"
  using recorded_generate [OF assms(1), of calls]
    recorded_execute [OF assms(2), of "calls @ [Generate question q]"]
    recorded_fix [OF assms(3), of "calls @ [Generate question q, Execute q (Failed e)]"]
    assms(4)
  by simp

lemma attempt_fails_last:
  assumes "generate_query S question w = (q, w1)"
    and "execute_query S q w1 = (Failed e, w2)"
    and "\<not> int k < int m - 1"
  shows "attempt_loop (recording S) question m (k # ks) (w, calls)
         = (Inl (NameError ''attempts''),
            (w2, calls @ [Generate question q, Execute q (Failed e)]))"
  using recorded_generate [OF assms(1), of calls]
    recorded_execute [OF assms(2), of "calls @ [Generate question q]"]
    assms(3)
  by simp

lemma run_first_succeeds:
  assumes "generate_query S question w = (q1, w1)"
    and "execute_query S q1 w1 = (Ok r1, w2)"
  shows "answer_with_self_correction (recording S) question (w, [])
         = (Inr (Some (SuccessResponse r1)),
            (w2, [Generate question q1, Execute q1 (Ok r1)]))"
  unfolding answer_with_self_correction_def Let_def attempts_range
  using attempt_succeeds [OF assms, of 3 0 "[1, 2]" "[]"] by simp

lemma run_second_succeeds:
  assumes "generate_query S question w = (q1, w1)"
    and "execute_query S q1 w1 = (Failed e1, w2)"
    and "fix_query S q1 e1 w2 = (p1, w3)"
    and "generate_query S question w3 = (q2, w4)"
    and "execute_query S q2 w4 = (Ok r2, w5)"
  shows "answer_with_self_correction (recording S) question (w, [])
         = (Inr (Some (SuccessResponse r2)),
            (w5, [Generate question q1, Execute q1 (Failed e1), Fix q1 e1 p1,
                  Generate question q2, Execute q2 (Ok r2)]))"
  unfolding answer_with_self_correction_def Let_def attempts_range
  using attempt_fails_and_goes_on [OF assms(1,2,3), of 0 3 "[1, 2]" "[]"]
    attempt_succeeds [OF assms(4,5), of 3 1 "[2]"
      "[Generate question q1, Execute q1 (Failed e1), Fix q1 e1 p1]"]
  by simp

lemma run_third_succeeds:
  assumes "generate_query S question w = (q1, w1)"
    and "execute_query S q1 w1 = (Failed e1, w2)"
    and "fix_query S q1 e1 w2 = (p1, w3)"
    and "generate_query S question w3 = (q2, w4)"
    and "execute_query S q2 w4 = (Failed e2, w5)"
    and "fix_query S q2 e2 w5 = (p2, w6)"
    and "generate_query S question w6 = (q3, w7)"
    and "execute_query S q3 w7 = (Ok r3, w8)"
  shows "answer_with_self_correction (recording S) question (w, [])
         = (Inr (Some (SuccessResponse r3)),
            (w8, [Generate question q1, Execute q1 (Failed e1), Fix q1 e1 p1,
                  Generate question q2, Execute q2 (Failed e2), Fix q2 e2 p2,
                  Generate question q3, Execute q3 (Ok r3)]))"
  unfolding answer_with_self_correction_def Let_def attempts_range
  using attempt_fails_and_goes_on [OF assms(1,2,3), of 0 3 "[1, 2]" "[]"]
    attempt_fails_and_goes_on [OF assms(4,5,6), of 1 3 "[2]"
      "[Generate question q1, Execute q1 (Failed e1), Fix q1 e1 p1]"]
    attempt_succeeds [OF assms(7,8), of 3 2 "[]"
      "[Generate question q1, Execute q1 (Failed e1), Fix q1 e1 p1,
        Generate question q2, Execute q2 (Failed e2), Fix q2 e2 p2]"]
  by simp

lemma run_exhausted:
  assumes "generate_query S question w = (q1, w1)"
    and "execute_query S q1 w1 = (Failed e1, w2)"
    and "fix_query S q1 e1 w2 = (p1, w3)"
    and "generate_query S question w3 = (q2, w4)"
    and "execute_query S q2 w4 = (Failed e2, w5)"
    and "fix_query S q2 e2 w5 = (p2, w6)"
    and "generate_query S question w6 = (q3, w7)"
    and "execute_query S q3 w7 = (Failed e3, w8)"
  shows "answer_with_self_correction (recording S) question (w, [])
         = (Inl (NameError ''attempts''),
            (w8, [Generate question q1, Execute q1 (Failed e1), Fix q1 e1 p1,
                  Generate question q2, Execute q2 (Failed e2), Fix q2 e2 p2,
                  Generate question q3, Execute q3 (Failed e3)]))"
  unfolding answer_with_self_correction_def Let_def attempts_range
  using attempt_fails_and_goes_on [OF assms(1,2,3), of 0 3 "[1, 2]" "[]"]
    attempt_fails_and_goes_on [OF assms(4,5,6), of 1 3 "[2]"
      "[Generate question q1, Execute q1 (Failed e1), Fix q1 e1 p1]"]
    attempt_fails_last [OF assms(7,8), of 2 3 "[]"
      "[Generate question q1, Execute q1 (Failed e1), Fix q1 e1 p1,
        Generate question q2, Execute q2 (Failed e2), Fix q2 e2 p2]"]
  by simp

lemma run_cases [case_names first second third exhausted]:
  obtains
    (first) q1 w1 r1 w2 where
      "generate_query S question w = (q1, w1)" "execute_query S q1 w1 = (Ok r1, w2)"
  | (second) q1 w1 e1 w2 p1 w3 q2 w4 r2 w5 where
      "generate_query S question w = (q1, w1)" "execute_query S q1 w1 = (Failed e1, w2)"
      "fix_query S q1 e1 w2 = (p1, w3)"
      "generate_query S question w3 = (q2, w4)" "execute_query S q2 w4 = (Ok r2, w5)"
  | (third) q1 w1 e1 w2 p1 w3 q2 w4 e2 w5 p2 w6 q3 w7 r3 w8 where
      "generate_query S question w = (q1, w1)" "execute_query S q1 w1 = (Failed e1, w2)"
      "fix_query S q1 e1 w2 = (p1, w3)"
      "generate_query S question w3 = (q2, w4)" "execute_query S q2 w4 = (Failed e2, w5)"
      "fix_query S q2 e2 w5 = (p2, w6)"
      "generate_query S question w6 = (q3, w7)" "execute_query S q3 w7 = (Ok r3, w8)"
  | (exhausted) q1 w1 e1 w2 p1 w3 q2 w4 e2 w5 p2 w6 q3 w7 e3 w8 where
      "generate_query S question w = (q1, w1)" "execute_query S q1 w1 = (Failed e1, w2)"
      "fix_query S q1 e1 w2 = (p1, w3)"
      "generate_query S question w3 = (q2, w4)" "execute_query S q2 w4 = (Failed e2, w5)"
      "fix_query S q2 e2 w5 = (p2, w6)"
      "generate_query S question w6 = (q3, w7)" "execute_query S q3 w7 = (Failed e3, w8)"
proof -
  obtain q1 w1 where g1: "generate_query S question w = (q1, w1)"
    by (cases "generate_query S question w")
  obtain res1 w2 where x1: "execute_query S q1 w1 = (res1, w2)"
    by (cases "execute_query S q1 w1")
  show thesis
  proof (cases res1)
    case (Ok r1)
    with g1 x1 first show thesis by simp
  next
    case f1: (Failed e1)
    obtain p1 w3 where c1: "fix_query S q1 e1 w2 = (p1, w3)"
      by (cases "fix_query S q1 e1 w2")
    obtain q2 w4 where g2: "generate_query S question w3 = (q2, w4)"
      by (cases "generate_query S question w3")
    obtain res2 w5 where x2: "execute_query S q2 w4 = (res2, w5)"
      by (cases "execute_query S q2 w4")
    show thesis
    proof (cases res2)
      case (Ok r2)
      with g1 x1 f1 c1 g2 x2 second show thesis by simp
    next
      case f2: (Failed e2)
      obtain p2 w6 where c2: "fix_query S q2 e2 w5 = (p2, w6)"
        by (cases "fix_query S q2 e2 w5")
      obtain q3 w7 where g3: "generate_query S question w6 = (q3, w7)"
        by (cases "generate_query S question w6")
      obtain res3 w8 where x3: "execute_query S q3 w7 = (res3, w8)"
        by (cases "execute_query S q3 w7")
      show thesis
      proof (cases res3)
        case (Ok r3)
        with g1 x1 f1 c1 g2 x2 f2 c2 g3 x3 third show thesis by simp
      next
        case (Failed e3)
        with g1 x1 f1 c1 g2 x2 f2 c2 g3 x3 exhausted show thesis by simp
      qed
    qed
  qed
qed

lemma never_ok:
  "always_fails S \<Longrightarrow> execute_query S q w \<noteq> (Ok r, w')"
  using always_failsD [of S q w] by auto

text \<open>The spies change neither the completion nor the world of the services they wrap.\<close>

lemma recording_transparent:
  "fst (attempt_loop (recording S) question m ks (w, calls))
     = fst (attempt_loop S question m ks w)
   \<and> fst (snd (attempt_loop (recording S) question m ks (w, calls)))
     = snd (attempt_loop S question m ks w)"
proof (induction ks arbitrary: w calls)
  case Nil
  show ?case by simp
next
  case (Cons k ks)
  obtain q w1 where g: "generate_query S question w = (q, w1)"
    by (cases "generate_query S question w")
  obtain res w2 where x: "execute_query S q w1 = (res, w2)"
    by (cases "execute_query S q w1")
  show ?case
  proof (cases res)
    case (Ok r)
    with g x show ?thesis
      using attempt_succeeds [of S question w q w1 r w2 m k ks calls] by simp
  next
    case (Failed e)
    show ?thesis
    proof (cases "int k < int m - 1")
      case True
      obtain q' w3 where f: "fix_query S q e w2 = (q', w3)"
        by (cases "fix_query S q e w2")
      show ?thesis
        using attempt_fails_and_goes_on [of S question w q w1 e w2 q' w3 k m ks calls]
          g x Failed f True Cons.IH
        by simp
    next
      case False
      then show ?thesis
        using attempt_fails_last [of S question w q w1 e w2 k m ks calls] g x Failed
        by simp
    qed
  qed
qed

lemma recording_is_transparent:
  "run_completion (answer_with_self_correction (recording S) question (w, calls))
     = fst (answer_with_self_correction S question w)
   \<and> run_world (answer_with_self_correction (recording S) question (w, calls))
     = snd (answer_with_self_correction S question w)"
  using recording_transparent [of S question 3 "[0..<3]" w calls]
  by (simp add: answer_with_self_correction_def run_completion_def run_world_def)

section \<open>Bounded attempts\<close>

text \<open>
  Claim C1, on the code. For every question whose backend execution always returns an
  execution error, \<open>answer_with_self_correction\<close> performs exactly
  \<open>max_attempts = 3\<close> query executions (the first one included), as the claim says.
  It then does not return the response of an exhausted run: the last line of the
  listing reads the name \<open>attempts\<close>, which is bound nowhere, and the run ends in
  \<open>NameError\<close>.
\<close>

theorem exhausted_run_raises:
  assumes "always_fails S"
  shows "run_completion (answer_with_self_correction (recording S) question (w, []))
           = Inl (NameError ''attempts'')
       \<and> length (executions (run_log
           (answer_with_self_correction (recording S) question (w, [])))) = 3"
proof (cases rule: run_cases [of S question w])
  case first
  with never_ok [OF assms] show ?thesis by simp
next
  case second
  with never_ok [OF assms] show ?thesis by simp
next
  case third
  with never_ok [OF assms] show ?thesis by simp
next
  case exhausted
  from run_exhausted [OF exhausted] show ?thesis
    by (simp add: run_completion_def run_log_def)
qed

text \<open>
  The exhaustion scenario: every execution fails with a syntax error; the backend has
  executed three queries when the run raises.
\<close>

theorem exhausted_run_raises_witness:
  "always_fails (scripted_services ''SELECT Rev FROM Sales''
        (Failed invalid_column :: (exec_error, nat) exec_result)
        (\<lambda>q. ''SELECT Revenue FROM Sales''))
   \<and> answer_with_self_correction
        (recording (scripted_services ''SELECT Rev FROM Sales''
          (Failed invalid_column :: (exec_error, nat) exec_result)
          (\<lambda>q. ''SELECT Revenue FROM Sales''))) ''total revenue'' (0, [])
     = (Inl (NameError ''attempts''),
        (3, [Generate ''total revenue'' ''SELECT Rev FROM Sales'',
             Execute ''SELECT Rev FROM Sales'' (Failed invalid_column),
             Fix ''SELECT Rev FROM Sales'' invalid_column ''SELECT Revenue FROM Sales'',
             Generate ''total revenue'' ''SELECT Rev FROM Sales'',
             Execute ''SELECT Rev FROM Sales'' (Failed invalid_column),
             Fix ''SELECT Rev FROM Sales'' invalid_column ''SELECT Revenue FROM Sales'',
             Generate ''total revenue'' ''SELECT Rev FROM Sales'',
             Execute ''SELECT Rev FROM Sales'' (Failed invalid_column)]))"
proof -
  let ?S = "scripted_services ''SELECT Rev FROM Sales''
        (Failed invalid_column :: (exec_error, nat) exec_result)
        (\<lambda>q. ''SELECT Revenue FROM Sales'')"
  have h: "always_fails ?S"
    by (rule always_fails_scripted)
  have r: "answer_with_self_correction (recording ?S) ''total revenue'' (0, [])
     = (Inl (NameError ''attempts''),
        (3, [Generate ''total revenue'' ''SELECT Rev FROM Sales'',
             Execute ''SELECT Rev FROM Sales'' (Failed invalid_column),
             Fix ''SELECT Rev FROM Sales'' invalid_column ''SELECT Revenue FROM Sales'',
             Generate ''total revenue'' ''SELECT Rev FROM Sales'',
             Execute ''SELECT Rev FROM Sales'' (Failed invalid_column),
             Fix ''SELECT Rev FROM Sales'' invalid_column ''SELECT Revenue FROM Sales'',
             Generate ''total revenue'' ''SELECT Rev FROM Sales'',
             Execute ''SELECT Rev FROM Sales'' (Failed invalid_column)]))"
    by (simp add: answer_with_self_correction_def attempts_range recording_def
        scripted_services_def eval_nat_numeral)
  from exhausted_run_raises [OF h, of "''total revenue''" 0] h r show ?thesis
    by simp
qed

section \<open>A repair that changes nothing\<close>

text \<open>
  Claim C3, as stated, fails: the corrector returns the failed query unchanged, and the
  run executes three times, which is not fewer than \<open>max_attempts\<close>; the query
  that failed is executed again.
\<close>

theorem noop_repair_counterexample:
  "fst (fix_query (scripted_services ''SELECT Rev FROM Sales''
          (Failed invalid_column :: (exec_error, nat) exec_result) (\<lambda>q. q))
        ''SELECT Rev FROM Sales'' invalid_column 1) = ''SELECT Rev FROM Sales''
   \<and> executions (run_log (answer_with_self_correction
        (recording (scripted_services ''SELECT Rev FROM Sales''
          (Failed invalid_column :: (exec_error, nat) exec_result) (\<lambda>q. q)))
        ''total revenue'' (0, [])))
       = [''SELECT Rev FROM Sales'', ''SELECT Rev FROM Sales'', ''SELECT Rev FROM Sales'']
   \<and> \<not> length (executions (run_log (answer_with_self_correction
        (recording (scripted_services ''SELECT Rev FROM Sales''
          (Failed invalid_column :: (exec_error, nat) exec_result) (\<lambda>q. q)))
        ''total revenue'' (0, [])))) < 3"
  by (simp add: answer_with_self_correction_def attempts_range recording_def
      scripted_services_def run_log_def)

text \<open>
  Claim C3, amended. If the corrector returns a query textually identical to the failed
  query, \<open>answer_with_self_correction\<close> does not detect it and does not stop early:
  the run goes on with the next attempt, and with a backend that always fails it
  performs exactly \<open>max_attempts = 3\<close> executions, not fewer, with a correction
  after the first and after the second.
\<close>

theorem noop_repair_goes_on:
  assumes "always_fails S"
    and "\<forall>q e w. fst (fix_query S q e w) = q"
  shows "(\<exists>q1 e1 q2 e2 q3 e3.
           without_generation (run_log
             (answer_with_self_correction (recording S) question (w, [])))
           = [Execute q1 (Failed e1), Fix q1 e1 q1,
              Execute q2 (Failed e2), Fix q2 e2 q2,
              Execute q3 (Failed e3)])
       \<and> length (executions (run_log
           (answer_with_self_correction (recording S) question (w, [])))) = 3"
proof (cases rule: run_cases [of S question w])
  case first
  with never_ok [OF assms(1)] show ?thesis by simp
next
  case second
  with never_ok [OF assms(1)] show ?thesis by simp
next
  case third
  with never_ok [OF assms(1)] show ?thesis by simp
next
  case (exhausted q1 w1 e1 w2 p1 w3 q2 w4 e2 w5 p2 w6 q3 w7 e3 w8)
  have "p1 = q1" "p2 = q2"
    using assms(2) exhausted(3,6) by (metis fst_conv)+
  with run_exhausted [OF exhausted] show ?thesis
    by (simp add: run_log_def)
qed

theorem noop_repair_goes_on_witness:
  "always_fails (scripted_services ''SELECT Rev FROM Sales''
        (Failed invalid_column :: (exec_error, nat) exec_result) (\<lambda>q. q))
   \<and> without_generation (run_log (answer_with_self_correction
        (recording (scripted_services ''SELECT Rev FROM Sales''
          (Failed invalid_column :: (exec_error, nat) exec_result) (\<lambda>q. q)))
        ''total revenue'' (0, [])))
     = [Execute ''SELECT Rev FROM Sales'' (Failed invalid_column),
        Fix ''SELECT Rev FROM Sales'' invalid_column ''SELECT Rev FROM Sales'',
        Execute ''SELECT Rev FROM Sales'' (Failed invalid_column),
        Fix ''SELECT Rev FROM Sales'' invalid_column ''SELECT Rev FROM Sales'',
        Execute ''SELECT Rev FROM Sales'' (Failed invalid_column)]"
proof -
  let ?S = "scripted_services ''SELECT Rev FROM Sales''
        (Failed invalid_column :: (exec_error, nat) exec_result) (\<lambda>q. q)"
  have h: "always_fails ?S"
    by (rule always_fails_scripted)
  have n: "\<forall>q e w. fst (fix_query ?S q e w) = q"
    by (simp add: scripted_services_def)
  have r: "without_generation (run_log (answer_with_self_correction (recording ?S)
        ''total revenue'' (0, [])))
     = [Execute ''SELECT Rev FROM Sales'' (Failed invalid_column),
        Fix ''SELECT Rev FROM Sales'' invalid_column ''SELECT Rev FROM Sales'',
        Execute ''SELECT Rev FROM Sales'' (Failed invalid_column),
        Fix ''SELECT Rev FROM Sales'' invalid_column ''SELECT Rev FROM Sales'',
        Execute ''SELECT Rev FROM Sales'' (Failed invalid_column)]"
    by (simp add: answer_with_self_correction_def attempts_range recording_def
        scripted_services_def run_log_def)
  from noop_repair_goes_on [OF h n, of "''total revenue''" 0] h r show ?thesis
    by simp
qed

section \<open>Error kinds\<close>

text \<open>
  Claim C5, as stated, fails: every execution fails with a connection error, and the
  corrector is invoked after the first and after the second of the three executions.
\<close>

theorem connection_error_counterexample:
  "kind login_timeout = Connection
   \<and> without_generation (run_log (answer_with_self_correction
        (recording (scripted_services ''SELECT 1''
          (Failed login_timeout :: (exec_error, nat) exec_result) (\<lambda>q. ''SELECT 2'')))
        ''is it up'' (0, [])))
     = [Execute ''SELECT 1'' (Failed login_timeout),
        Fix ''SELECT 1'' login_timeout ''SELECT 2'',
        Execute ''SELECT 1'' (Failed login_timeout),
        Fix ''SELECT 1'' login_timeout ''SELECT 2'',
        Execute ''SELECT 1'' (Failed login_timeout)]
   \<and> corrections (run_log (answer_with_self_correction
        (recording (scripted_services ''SELECT 1''
          (Failed login_timeout :: (exec_error, nat) exec_result) (\<lambda>q. ''SELECT 2'')))
        ''is it up'' (0, [])))
     \<noteq> []"
  by (simp add: answer_with_self_correction_def attempts_range recording_def
      scripted_services_def run_log_def login_timeout_def)

text \<open>
  Claim C5, amended. The error kind of a failed execution is never inspected: whatever
  the kind, connection and permission included, the corrector is invoked with the
  failed query and its error after a failure of the first and of the second execution
  of a run, and is not invoked after the third. The executions and corrections of
  every run are one of four sequences: a success; a failure, its correction and a
  success; two failures, each with its correction, and a success; or two failures,
  each with its correction, and a third failure. When every failure is a connection
  or permission error, it is the last of the four.
\<close>

theorem corrector_ignores_error_kinds:
  fixes S :: "(exec_error, 'r, 'w) services"
  shows "((\<exists>q1 r1.
            without_generation (run_log
              (answer_with_self_correction (recording S) question (w, [])))
            = [Execute q1 (Ok r1)])
        \<or> (\<exists>q1 e1 p1 q2 r2.
            without_generation (run_log
              (answer_with_self_correction (recording S) question (w, [])))
            = [Execute q1 (Failed e1), Fix q1 e1 p1, Execute q2 (Ok r2)])
        \<or> (\<exists>q1 e1 p1 q2 e2 p2 q3 r3.
            without_generation (run_log
              (answer_with_self_correction (recording S) question (w, [])))
            = [Execute q1 (Failed e1), Fix q1 e1 p1,
               Execute q2 (Failed e2), Fix q2 e2 p2, Execute q3 (Ok r3)])
        \<or> (\<exists>q1 e1 p1 q2 e2 p2 q3 e3.
            without_generation (run_log
              (answer_with_self_correction (recording S) question (w, [])))
            = [Execute q1 (Failed e1), Fix q1 e1 p1,
               Execute q2 (Failed e2), Fix q2 e2 p2, Execute q3 (Failed e3)]))
       \<and> ((\<forall>q w. \<exists>e w'. execute_query S q w = (Failed e, w')
                \<and> (kind e = Connection \<or> kind e = Permission)) \<longrightarrow>
          (\<exists>q1 e1 p1 q2 e2 p2 q3 e3.
            without_generation (run_log
              (answer_with_self_correction (recording S) question (w, [])))
            = [Execute q1 (Failed e1), Fix q1 e1 p1,
               Execute q2 (Failed e2), Fix q2 e2 p2, Execute q3 (Failed e3)]
            \<and> (kind e1 = Connection \<or> kind e1 = Permission)
            \<and> (kind e2 = Connection \<or> kind e2 = Permission)
            \<and> (kind e3 = Connection \<or> kind e3 = Permission)))"
proof (intro conjI impI)
  show "(\<exists>q1 r1.
            without_generation (run_log
              (answer_with_self_correction (recording S) question (w, [])))
            = [Execute q1 (Ok r1)])
        \<or> (\<exists>q1 e1 p1 q2 r2.
            without_generation (run_log
              (answer_with_self_correction (recording S) question (w, [])))
            = [Execute q1 (Failed e1), Fix q1 e1 p1, Execute q2 (Ok r2)])
        \<or> (\<exists>q1 e1 p1 q2 e2 p2 q3 r3.
            without_generation (run_log
              (answer_with_self_correction (recording S) question (w, [])))
            = [Execute q1 (Failed e1), Fix q1 e1 p1,
               Execute q2 (Failed e2), Fix q2 e2 p2, Execute q3 (Ok r3)])
        \<or> (\<exists>q1 e1 p1 q2 e2 p2 q3 e3.
            without_generation (run_log
              (answer_with_self_correction (recording S) question (w, [])))
            = [Execute q1 (Failed e1), Fix q1 e1 p1,
               Execute q2 (Failed e2), Fix q2 e2 p2, Execute q3 (Failed e3)])"
  proof (cases rule: run_cases [of S question w])
    case first
    from run_first_succeeds [OF first] show ?thesis
      by (simp add: run_log_def)
  next
    case second
    from run_second_succeeds [OF second] show ?thesis
      by (simp add: run_log_def)
  next
    case third
    from run_third_succeeds [OF third] show ?thesis
      by (simp add: run_log_def)
  next
    case exhausted
    from run_exhausted [OF exhausted] show ?thesis
      by (simp add: run_log_def)
  qed
next
  assume a: "\<forall>q w. \<exists>e w'. execute_query S q w = (Failed e, w')
                \<and> (kind e = Connection \<or> kind e = Permission)"
  then have k: "execute_query S q w = (Failed e, w') \<Longrightarrow> kind e = Connection \<or> kind e = Permission"
    for q w e w'
    by (metis Pair_inject exec_result.inject(1))
  from a have f: "always_fails S"
    unfolding always_fails_def by blast
  show "\<exists>q1 e1 p1 q2 e2 p2 q3 e3.
            without_generation (run_log
              (answer_with_self_correction (recording S) question (w, [])))
            = [Execute q1 (Failed e1), Fix q1 e1 p1,
               Execute q2 (Failed e2), Fix q2 e2 p2, Execute q3 (Failed e3)]
            \<and> (kind e1 = Connection \<or> kind e1 = Permission)
            \<and> (kind e2 = Connection \<or> kind e2 = Permission)
            \<and> (kind e3 = Connection \<or> kind e3 = Permission)"
  proof (cases rule: run_cases [of S question w])
    case first
    with never_ok [OF f] show ?thesis by simp
  next
    case second
    with never_ok [OF f] show ?thesis by simp
  next
    case third
    with never_ok [OF f] show ?thesis by simp
  next
    case (exhausted q1 w1 e1 w2 p1 w3 q2 w4 e2 w5 p2 w6 q3 w7 e3 w8)
    have "kind e1 = Connection \<or> kind e1 = Permission"
      "kind e2 = Connection \<or> kind e2 = Permission"
      "kind e3 = Connection \<or> kind e3 = Permission"
      using k exhausted(2,5,8) by blast+
    with run_exhausted [OF exhausted] show ?thesis
      by (simp add: run_log_def)
  qed
qed

text \<open>
  A backend that is down: three executions fail with a connection error, and the
  corrector is called after the first two.
\<close>

theorem corrector_ignores_error_kinds_witness:
  "(\<forall>q w. \<exists>e w'. execute_query (scripted_services ''SELECT 1''
          (Failed login_timeout :: (exec_error, nat) exec_result) (\<lambda>q. ''SELECT 2'')) q w
        = (Failed e, w') \<and> (kind e = Connection \<or> kind e = Permission))
   \<and> (\<exists>q1 e1 p1 q2 e2 p2 q3 e3.
        without_generation (run_log (answer_with_self_correction
          (recording (scripted_services ''SELECT 1''
            (Failed login_timeout :: (exec_error, nat) exec_result) (\<lambda>q. ''SELECT 2'')))
          ''is it up'' (0, [])))
        = [Execute q1 (Failed e1), Fix q1 e1 p1,
           Execute q2 (Failed e2), Fix q2 e2 p2, Execute q3 (Failed e3)]
        \<and> kind e1 = Connection \<and> kind e2 = Connection \<and> kind e3 = Connection)"
proof -
  let ?S = "scripted_services ''SELECT 1''
          (Failed login_timeout :: (exec_error, nat) exec_result) (\<lambda>q. ''SELECT 2'')"
  have a: "\<forall>q w. \<exists>e w'. execute_query ?S q w = (Failed e, w')
      \<and> (kind e = Connection \<or> kind e = Permission)"
    by (simp add: scripted_services_def login_timeout_def)
  have r: "without_generation (run_log (answer_with_self_correction (recording ?S)
        ''is it up'' (0, [])))
     = [Execute ''SELECT 1'' (Failed login_timeout),
        Fix ''SELECT 1'' login_timeout ''SELECT 2'',
        Execute ''SELECT 1'' (Failed login_timeout),
        Fix ''SELECT 1'' login_timeout ''SELECT 2'',
        Execute ''SELECT 1'' (Failed login_timeout)]"
    by (simp add: answer_with_self_correction_def attempts_range recording_def
        scripted_services_def run_log_def)
  have k: "kind login_timeout = Connection"
    by (simp add: login_timeout_def)
  from corrector_ignores_error_kinds [of ?S "''is it up''" 0] a r k show ?thesis
    by simp
qed

section \<open>A hit in the similarity cache\<close>

lemma cache_first_hit:
  "get_similar_query calc cache question = Some entry \<Longrightarrow>
   generate_query (cache_first calc cache S) question w = (entry_query entry, w)"
  by (simp add: cache_first_def)

lemma cache_first_execute: "execute_query (cache_first calc cache S) = execute_query S"
  by (simp add: cache_first_def)

text \<open>
  Claim C2. In every run in which the similarity-cache lookup for the question hits,
  the orchestrator executes the cached query against the live backend before it
  produces its result: the first call of the backend in the run is the execution of
  the cached query, in the world the run started in. When that execution succeeds, the
  response carries exactly the rows that the backend returned to it; and every success
  response carries the rows of the last execution of its own run. No response is served
  from the cache, which holds the query and not its rows.
\<close>

theorem cache_hit_is_executed_live:
  assumes "get_similar_query calc cache question = Some entry"
  shows "(\<exists>res w' rest.
            execute_query S (entry_query entry) w = (res, w')
            \<and> run_log (answer_with_self_correction
                 (recording (cache_first calc cache S)) question (w, []))
              = Generate question (entry_query entry)
                # Execute (entry_query entry) res # rest)
       \<and> (\<forall>r w'. execute_query S (entry_query entry) w = (Ok r, w') \<longrightarrow>
            answer_with_self_correction
              (recording (cache_first calc cache S)) question (w, [])
            = (Inr (Some (SuccessResponse r)),
               (w', [Generate question (entry_query entry),
                     Execute (entry_query entry) (Ok r)])))
       \<and> (\<forall>r. run_completion (answer_with_self_correction
                 (recording (cache_first calc cache S)) question (w, []))
               = Inr (Some (SuccessResponse r)) \<longrightarrow>
            (\<exists>pre q. run_log (answer_with_self_correction
                 (recording (cache_first calc cache S)) question (w, []))
               = pre @ [Execute q (Ok r)]))"
proof (intro conjI allI impI)
  let ?S = "cache_first calc cache S"
  note hit = cache_first_hit [OF assms, of S]
  show "\<exists>res w' rest.
            execute_query S (entry_query entry) w = (res, w')
            \<and> run_log (answer_with_self_correction (recording ?S) question (w, []))
              = Generate question (entry_query entry)
                # Execute (entry_query entry) res # rest"
  proof (cases rule: run_cases [of ?S question w])
    case first
    from run_first_succeeds [OF first] first hit [of w] show ?thesis
      by (simp add: run_log_def cache_first_execute)
  next
    case second
    from run_second_succeeds [OF second] second(1,2) hit [of w] show ?thesis
      by (simp add: run_log_def cache_first_execute)
  next
    case third
    from run_third_succeeds [OF third] third(1,2) hit [of w] show ?thesis
      by (simp add: run_log_def cache_first_execute)
  next
    case exhausted
    from run_exhausted [OF exhausted] exhausted(1,2) hit [of w] show ?thesis
      by (simp add: run_log_def cache_first_execute)
  qed
next
  fix r w'
  assume "execute_query S (entry_query entry) w = (Ok r, w')"
  then have "execute_query (cache_first calc cache S) (entry_query entry) w = (Ok r, w')"
    by (simp add: cache_first_execute)
  from run_first_succeeds [OF cache_first_hit [OF assms] this]
  show "answer_with_self_correction
              (recording (cache_first calc cache S)) question (w, [])
            = (Inr (Some (SuccessResponse r)),
               (w', [Generate question (entry_query entry),
                     Execute (entry_query entry) (Ok r)]))" .
next
  fix r
  let ?S = "cache_first calc cache S"
  assume c: "run_completion (answer_with_self_correction (recording ?S) question (w, []))
               = Inr (Some (SuccessResponse r))"
  show "\<exists>pre q. run_log (answer_with_self_correction (recording ?S) question (w, []))
               = pre @ [Execute q (Ok r)]"
  proof (cases rule: run_cases [of ?S question w])
    case (first q1 w1 r1 w2)
    from run_first_succeeds [OF first] c have
      "run_log (answer_with_self_correction (recording ?S) question (w, []))
       = [Generate question q1] @ [Execute q1 (Ok r)]"
      by (simp add: run_log_def run_completion_def)
    then show ?thesis by blast
  next
    case (second q1 w1 e1 w2 p1 w3 q2 w4 r2 w5)
    from run_second_succeeds [OF second] c have
      "run_log (answer_with_self_correction (recording ?S) question (w, []))
       = [Generate question q1, Execute q1 (Failed e1), Fix q1 e1 p1,
          Generate question q2] @ [Execute q2 (Ok r)]"
      by (simp add: run_log_def run_completion_def)
    then show ?thesis by blast
  next
    case (third q1 w1 e1 w2 p1 w3 q2 w4 e2 w5 p2 w6 q3 w7 r3 w8)
    from run_third_succeeds [OF third] c have
      "run_log (answer_with_self_correction (recording ?S) question (w, []))
       = [Generate question q1, Execute q1 (Failed e1), Fix q1 e1 p1,
          Generate question q2, Execute q2 (Failed e2), Fix q2 e2 p2,
          Generate question q3] @ [Execute q3 (Ok r)]"
      by (simp add: run_log_def run_completion_def)
    then show ?thesis by blast
  next
    case exhausted
    from run_exhausted [OF exhausted] c show ?thesis
      by (simp add: run_completion_def)
  qed
qed

text \<open>
  The same question asked twice, answered from the same cache entry, while the table
  grows: each response carries the rows of its own execution of the cached query.
\<close>

theorem cache_hit_is_executed_live_witness:
  "get_similar_query same_text_similarity warm_cache ''show top 2 customers by revenue''
     = Some \<lparr>entry_query = ''SELECT TOP 2 Name FROM Customers ORDER BY Revenue DESC'',
             entry_language = ''T-SQL''\<rparr>
   \<and> answer_with_self_correction
        (recording (cache_first same_text_similarity warm_cache
           (growing_services ''SELECT Name FROM Customers'')))
        ''show top 2 customers by revenue'' (0, [])
     = (Inr (Some (SuccessResponse [0])),
        (1, [Generate ''show top 2 customers by revenue''
               ''SELECT TOP 2 Name FROM Customers ORDER BY Revenue DESC'',
             Execute ''SELECT TOP 2 Name FROM Customers ORDER BY Revenue DESC'' (Ok [0])]))
   \<and> answer_with_self_correction
        (recording (cache_first same_text_similarity warm_cache
           (growing_services ''SELECT Name FROM Customers'')))
        ''show top 2 customers by revenue'' (1, [])
     = (Inr (Some (SuccessResponse [0, 1])),
        (2, [Generate ''show top 2 customers by revenue''
               ''SELECT TOP 2 Name FROM Customers ORDER BY Revenue DESC'',
             Execute ''SELECT TOP 2 Name FROM Customers ORDER BY Revenue DESC'' (Ok [0, 1])]))"
proof -
  let ?e = "\<lparr>entry_query = ''SELECT TOP 2 Name FROM Customers ORDER BY Revenue DESC'',
             entry_language = ''T-SQL''\<rparr>"
  let ?S = "growing_services ''SELECT Name FROM Customers'' :: (exec_error, nat list, nat) services"
  have h: "get_similar_query same_text_similarity warm_cache
      ''show top 2 customers by revenue'' = Some ?e"
    by (simp add: get_similar_query_def warm_cache_def CacheManager_init_def
        same_text_similarity_def)
  have x0: "execute_query ?S (entry_query ?e) 0 = (Ok [0], 1)"
    by (simp add: growing_services_def)
  have x1: "execute_query ?S (entry_query ?e) 1 = (Ok [0, 1], 2)"
    by (simp add: growing_services_def eval_nat_numeral)
  from cache_hit_is_executed_live [OF h, of ?S 0] x0
    cache_hit_is_executed_live [OF h, of ?S 1] x1 h
  show ?thesis
    by simp
qed

section \<open>The similarity threshold\<close>

text \<open>
  The lookup returns a result exactly when its question is the first in the cache whose
  similarity exceeds the threshold, and \<open>None\<close> exactly when no similarity does.
\<close>

lemma split_at_head:
  assumes "calc question c0 > t"
  shows "(\<exists>before cached_q after.
            (c0, r0) # items = before @ (cached_q, result) # after
            \<and> calc question cached_q > t
            \<and> (\<forall>(c, r) \<in> set before. \<not> calc question c > (t::rat)))
         = (r0 = result)"
proof
  assume "\<exists>before cached_q after.
            (c0, r0) # items = before @ (cached_q, result) # after
            \<and> calc question cached_q > t
            \<and> (\<forall>(c, r) \<in> set before. \<not> calc question c > t)"
  then obtain before cached_q after where
    s: "(c0, r0) # items = before @ (cached_q, result) # after"
    and n: "\<forall>(c, r) \<in> set before. \<not> calc question c > t"
    by blast
  show "r0 = result"
  proof (cases before)
    case Nil
    with s show ?thesis
      by simp
  next
    case (Cons b bs)
    with s have "b = (c0, r0)"
      by simp
    with Cons n have "\<not> calc question c0 > t"
      by simp
    with assms show ?thesis
      by simp
  qed
next
  assume "r0 = result"
  with assms have "(c0, r0) # items = [] @ (c0, result) # items
      \<and> calc question c0 > t \<and> (\<forall>(c, r) \<in> set []. \<not> calc question c > t)"
    by simp
  then show "\<exists>before cached_q after.
            (c0, r0) # items = before @ (cached_q, result) # after
            \<and> calc question cached_q > t
            \<and> (\<forall>(c, r) \<in> set before. \<not> calc question c > t)"
    by (intro exI)
qed

lemma split_after_head:
  assumes "\<not> calc question c0 > t"
  shows "(\<exists>before cached_q after.
            (c0, r0) # items = before @ (cached_q, result) # after
            \<and> calc question cached_q > t
            \<and> (\<forall>(c, r) \<in> set before. \<not> calc question c > (t::rat)))
         = (\<exists>before cached_q after.
            items = before @ (cached_q, result) # after
            \<and> calc question cached_q > t
            \<and> (\<forall>(c, r) \<in> set before. \<not> calc question c > t))"
proof
  assume "\<exists>before cached_q after.
            (c0, r0) # items = before @ (cached_q, result) # after
            \<and> calc question cached_q > t
            \<and> (\<forall>(c, r) \<in> set before. \<not> calc question c > t)"
  then obtain before cached_q after where
    s: "(c0, r0) # items = before @ (cached_q, result) # after"
    and g: "calc question cached_q > t"
    and n: "\<forall>(c, r) \<in> set before. \<not> calc question c > t"
    by blast
  show "\<exists>before cached_q after.
            items = before @ (cached_q, result) # after
            \<and> calc question cached_q > t
            \<and> (\<forall>(c, r) \<in> set before. \<not> calc question c > t)"
  proof (cases before)
    case Nil
    with s have "cached_q = c0"
      by simp
    with g assms show ?thesis
      by simp
  next
    case (Cons b bs)
    with s have "items = bs @ (cached_q, result) # after"
      by simp
    moreover from Cons n have "\<forall>(c, r) \<in> set bs. \<not> calc question c > t"
      by simp
    ultimately have "items = bs @ (cached_q, result) # after
        \<and> calc question cached_q > t \<and> (\<forall>(c, r) \<in> set bs. \<not> calc question c > t)"
      using g by simp
    then show ?thesis
      by (intro exI)
  qed
next
  assume "\<exists>before cached_q after.
            items = before @ (cached_q, result) # after
            \<and> calc question cached_q > t
            \<and> (\<forall>(c, r) \<in> set before. \<not> calc question c > t)"
  then obtain before cached_q after where
    s: "items = before @ (cached_q, result) # after"
    and g: "calc question cached_q > t"
    and n: "\<forall>(c, r) \<in> set before. \<not> calc question c > t"
    by blast
  from s have "(c0, r0) # items = ((c0, r0) # before) @ (cached_q, result) # after"
    by simp
  moreover from n assms have "\<forall>(c, r) \<in> set ((c0, r0) # before). \<not> calc question c > t"
    by simp
  ultimately have "(c0, r0) # items = ((c0, r0) # before) @ (cached_q, result) # after
      \<and> calc question cached_q > t
      \<and> (\<forall>(c, r) \<in> set ((c0, r0) # before). \<not> calc question c > t)"
    using g by simp
  then show "\<exists>before cached_q after.
            (c0, r0) # items = before @ (cached_q, result) # after
            \<and> calc question cached_q > t
            \<and> (\<forall>(c, r) \<in> set before. \<not> calc question c > t)"
    by (intro exI)
qed

lemma similar_loop_Some:
  "(similar_loop calc t question items = Some result)
     = (\<exists>before cached_q after.
          items = before @ (cached_q, result) # after
          \<and> calc question cached_q > t
          \<and> (\<forall>(c, r) \<in> set before. \<not> calc question c > t))"
proof (induction items)
  case Nil
  show ?case by simp
next
  case (Cons item items)
  obtain c0 r0 where item: "item = (c0, r0)"
    by (cases item)
  show ?case
  proof (cases "calc question c0 > t")
    case True
    then have "(similar_loop calc t question ((c0, r0) # items) = Some result) = (r0 = result)"
      by simp
    then show ?thesis
      unfolding item
        split_at_head [where calc = calc and question = question and t = t and ?c0.0 = c0
          and ?r0.0 = r0 and items = items and result = result, OF True] .
  next
    case False
    then have "similar_loop calc t question ((c0, r0) # items)
        = similar_loop calc t question items"
      by simp
    then show ?thesis
      unfolding item
        split_after_head [where calc = calc and question = question and t = t and ?c0.0 = c0
          and ?r0.0 = r0 and items = items and result = result, OF False]
      using Cons.IH by (simp only:)
  qed
qed

lemma similar_loop_None:
  "(similar_loop calc t question items = None)
     = (\<forall>(c, r) \<in> set items. \<not> calc question c > t)"
proof (induction items)
  case Nil
  show ?case by simp
next
  case (Cons item items)
  obtain c0 r0 where "item = (c0, r0)"
    by (cases item)
  with Cons.IH show ?case
    by simp
qed

text \<open>
  Claim C6, as stated, fails: the similarity of the incoming question and the stored
  one is exactly the threshold \<open>0.8\<close>, and the lookup misses.
\<close>

theorem similarity_threshold_counterexample:
  "four_fifths_similarity ''show the top 2 customers by revenue'' ''show top 2 customers by revenue''
     \<ge> similarity_threshold warm_cache
   \<and> similarity_threshold warm_cache = 8 / 10
   \<and> get_similar_query four_fifths_similarity warm_cache ''show the top 2 customers by revenue''
     = None"
  by (simp add: get_similar_query_def warm_cache_def CacheManager_init_def
      four_fifths_similarity_def)

text \<open>
  Claim C6, amended. The lookup reports a hit exactly when, for some stored question,
  the similarity that \<open>_calculate_similarity\<close> computes for the incoming question and
  the stored one is strictly greater than the threshold \<open>0.8\<close>, and it returns the
  result stored with the first such question in insertion order; a similarity exactly
  equal to the threshold is a miss.
\<close>

theorem similarity_hit_is_strict:
  "(get_similar_query calc self question = Some result)
     = (\<exists>before cached_q after.
          query_cache self = before @ (cached_q, result) # after
          \<and> calc question cached_q > similarity_threshold self
          \<and> (\<forall>(c, r) \<in> set before. \<not> calc question c > similarity_threshold self))
   \<and> (get_similar_query calc self question = None)
     = (\<forall>(c, r) \<in> set (query_cache self). \<not> calc question c > similarity_threshold self)
   \<and> ((\<forall>(c, r) \<in> set (query_cache self). calc question c = similarity_threshold self) \<longrightarrow>
        get_similar_query calc self question = None)"
proof (intro conjI impI)
  show "(get_similar_query calc self question = Some result)
     = (\<exists>before cached_q after.
          query_cache self = before @ (cached_q, result) # after
          \<and> calc question cached_q > similarity_threshold self
          \<and> (\<forall>(c, r) \<in> set before. \<not> calc question c > similarity_threshold self))"
    unfolding get_similar_query_def by (rule similar_loop_Some)
  show none: "(get_similar_query calc self question = None)
     = (\<forall>(c, r) \<in> set (query_cache self). \<not> calc question c > similarity_threshold self)"
    unfolding get_similar_query_def by (rule similar_loop_None)
  assume "\<forall>(c, r) \<in> set (query_cache self). calc question c = similarity_threshold self"
  then have "\<forall>(c, r) \<in> set (query_cache self). \<not> calc question c > similarity_threshold self"
    by fastforce
  then show "get_similar_query calc self question = None"
    by (rule none [THEN iffD2])
qed

text \<open>
  Two stored questions: the lookup returns the second when only it is similar enough,
  the first when both are, and nothing when both similarities equal the threshold.
\<close>

theorem similarity_hit_is_strict_witness:
  "get_similar_query same_text_similarity two_entry_cache ''total sales by region''
     = Some \<lparr>entry_query = ''SELECT Region, SUM(Amount) FROM Sales GROUP BY Region'',
             entry_language = ''T-SQL''\<rparr>
   \<and> get_similar_query always_similar two_entry_cache ''total sales by region''
     = Some \<lparr>entry_query = ''SELECT TOP 2 Name FROM Customers ORDER BY Revenue DESC'',
             entry_language = ''T-SQL''\<rparr>
   \<and> get_similar_query four_fifths_similarity two_entry_cache ''total sales by region''
     = None"
proof -
  let ?a = "\<lparr>entry_query = ''SELECT TOP 2 Name FROM Customers ORDER BY Revenue DESC'',
             entry_language = ''T-SQL''\<rparr>"
  let ?b = "\<lparr>entry_query = ''SELECT Region, SUM(Amount) FROM Sales GROUP BY Region'',
             entry_language = ''T-SQL''\<rparr>"
  let ?q = "''total sales by region''"
  have e1: "\<exists>before cached_q after.
      query_cache two_entry_cache = before @ (cached_q, ?b) # after
      \<and> same_text_similarity ?q cached_q > similarity_threshold two_entry_cache
      \<and> (\<forall>(c, r) \<in> set before.
            \<not> same_text_similarity ?q c > similarity_threshold two_entry_cache)"
    by (intro exI [of _ "[(''show top 2 customers by revenue'', ?a)]"]
        exI [of _ "''total sales by region''"] exI [of _ "[]"])
      (simp add: two_entry_cache_def CacheManager_init_def same_text_similarity_def)
  have e2: "\<exists>before cached_q after.
      query_cache two_entry_cache = before @ (cached_q, ?a) # after
      \<and> always_similar ?q cached_q > similarity_threshold two_entry_cache
      \<and> (\<forall>(c, r) \<in> set before.
            \<not> always_similar ?q c > similarity_threshold two_entry_cache)"
    by (intro exI [of _ "[]"] exI [of _ "''show top 2 customers by revenue''"]
        exI [of _ "[(''total sales by region'', ?b)]"])
      (simp add: two_entry_cache_def CacheManager_init_def always_similar_def)
  have e3: "\<forall>(c, r) \<in> set (query_cache two_entry_cache).
      four_fifths_similarity ?q c = similarity_threshold two_entry_cache"
    by (simp add: two_entry_cache_def CacheManager_init_def four_fifths_similarity_def)
  have 1: "get_similar_query same_text_similarity two_entry_cache ?q = Some ?b"
    by (rule similarity_hit_is_strict [of same_text_similarity two_entry_cache ?q ?b,
          THEN conjunct1, THEN iffD2, OF e1])
  have 2: "get_similar_query always_similar two_entry_cache ?q = Some ?a"
    by (rule similarity_hit_is_strict [of always_similar two_entry_cache ?q ?a,
          THEN conjunct1, THEN iffD2, OF e2])
  have 3: "get_similar_query four_fifths_similarity two_entry_cache ?q = None"
    by (rule similarity_hit_is_strict [of four_fifths_similarity two_entry_cache ?q ?a,
          THEN conjunct2, THEN conjunct2, THEN mp, OF e3])
  from 1 2 3 show ?thesis
    by simp
qed

section \<open>The conversation context\<close>

text \<open>
  \<open>slice(-2)\<close> keeps the last two entries, so an update leaves at most three; no event
  of the chat makes the context longer than that, and none leaves the chat loading. A
  question that is blank, or asked while a request is pending, is not sent.
\<close>

lemma blank_question_is_not_sent:
  "js_trim (js_or messageText (input st)) = [] \<or> loading st \<Longrightarrow>
   sendMessage messageText out st = st"
  by (auto simp: sendMessage_def Let_def)

lemma no_break_space_is_blank: "js_trim [CHR 0xA0, CHR 0x20] = []"
  by (simp add: js_trim_def js_isspace_def)

lemma js_slice_last_two: "js_slice (- 2) xs = drop (length xs - 2) xs"
  by (simp add: js_slice_def Let_def max_def nat_diff_distrib') 

lemma length_update_context: "length (update_context e prev) \<le> 3"
  by (simp add: update_context_def js_slice_last_two)

lemma update_context_full: "length prev = 3 \<Longrightarrow> update_context e prev = tl prev @ [e]"
  by (cases prev) (simp_all add: update_context_def js_slice_last_two)

lemma sendMessage_context:
  "conversationContext (sendMessage messageText out st)
     = (if js_trim (js_or messageText (input st)) \<noteq> [] \<and> \<not> loading st then
          (case out of
             Responded result \<Rightarrow>
               if success result \<and> js_truthy_string (query result) then
                 update_context (contextEntry (js_or messageText (input st)) result)
                   (conversationContext st)
               else conversationContext st
           | Threw \<Rightarrow> conversationContext st)
        else conversationContext st)"
  by (simp add: sendMessage_def Let_def split: outcome.splits)

lemma sendMessage_loading:
  "\<not> loading st \<Longrightarrow> \<not> loading (sendMessage messageText out st)"
  by (simp add: sendMessage_def Let_def split: outcome.splits)

lemma chat_step_bounded:
  "length (conversationContext st) \<le> 3 \<Longrightarrow> length (conversationContext (chat_step st ev)) \<le> 3"
  by (cases ev) (simp_all add: sendMessage_context length_update_context split: outcome.splits)

lemma chat_step_loading: "\<not> loading st \<Longrightarrow> \<not> loading (chat_step st ev)"
  by (cases ev) (simp_all add: sendMessage_loading)

lemma foldl_chat_bounded:
  "length (conversationContext st) \<le> 3 \<Longrightarrow>
   length (conversationContext (foldl chat_step st events)) \<le> 3"
  by (induction events arbitrary: st) (simp_all add: chat_step_bounded)

lemma foldl_chat_loading:
  "\<not> loading st \<Longrightarrow> \<not> loading (foldl chat_step st events)"
  by (induction events arbitrary: st) (simp_all add: chat_step_loading)

lemma js_trim_nonempty: "js_trim q \<noteq> [] \<Longrightarrow> q \<noteq> []"
  by (auto simp: js_trim_def)

lemma drop_recent:
  "drop (length (drop (length es - 3) es) - 2) (drop (length es - 3) es) = drop (length es - 2) es"
proof -
  have "length es - (length es - 3) - 2 + (length es - 3) = length es - 2"
    by arith
  then show ?thesis
    by simp
qed

lemma typed_turn_context:
  assumes "js_trim q \<noteq> []" "success r" "js_truthy_string (query r)" "\<not> loading st"
  shows "conversationContext (foldl chat_step st (typed_turn (q, r)))
           = update_context (contextEntry q r) (conversationContext st)"
  using assms by (simp add: typed_turn_def sendMessage_context js_or_def)

lemma successful_turns_context:
  assumes "\<forall>(q, r) \<in> set turns. js_trim q \<noteq> [] \<and> success r \<and> js_truthy_string (query r)"
  shows "conversationContext (run_chat (concat (map typed_turn turns)))
         = drop (length turns - 3) (map (\<lambda>(q, r). contextEntry q r) turns)"
  using assms
proof (induction turns rule: rev_induct)
  case Nil
  then show ?case by (simp add: run_chat_def initial_chat_state_def)
next
  case (snoc t ts)
  obtain q r where t: "t = (q, r)" by (cases t)
  let ?evs = "concat (map typed_turn ts)"
  let ?es = "map (\<lambda>(q, r). contextEntry q r) ts"
  have IH: "conversationContext (run_chat ?evs) = drop (length ts - 3) ?es"
    using snoc by simp
  have nl: "\<not> loading (run_chat ?evs)"
    unfolding run_chat_def by (rule foldl_chat_loading) (simp add: initial_chat_state_def)
  have ok: "js_trim q \<noteq> []" "success r" "js_truthy_string (query r)"
    using snoc.prems t by simp_all
  have "run_chat (concat (map typed_turn (ts @ [t])))
        = foldl chat_step (run_chat ?evs) (typed_turn (q, r))"
    using t by (simp add: run_chat_def)
  then have "conversationContext (run_chat (concat (map typed_turn (ts @ [t]))))
        = update_context (contextEntry q r) (drop (length ts - 3) ?es)"
    using typed_turn_context [OF ok nl] IH by simp
  also have "\<dots> = drop (length ts - 2) ?es @ [contextEntry q r]"
    using drop_recent [of ?es] by (simp add: update_context_def js_slice_last_two)
  also have "\<dots> = drop (length (ts @ [t]) - 3) (map (\<lambda>(q, r). contextEntry q r) (ts @ [t]))"
  proof -
    have "length (ts @ [t]) - 3 = length ts - 2"
      by simp
    then show ?thesis
      using t by simp
  qed
  finally show ?case .
qed

text \<open>
  Claim C4. Starting from the empty context, after every sequence of chat events the
  conversation context holds at most \<open>K = 3\<close> entries; after any number of successful
  turns, each typed into the input box and sent, it holds their most recent three
  entries in order, most recent last (after \<open>K + 1 = 4\<close> turns: the last three,
  without the oldest); and an update of a full context evicts exactly its oldest entry.
\<close>

theorem context_is_bounded:
  "length (conversationContext (run_chat events)) \<le> 3
   \<and> ((\<forall>(q, r) \<in> set turns. js_trim q \<noteq> [] \<and> success r \<and> js_truthy_string (query r)) \<longrightarrow>
        conversationContext (run_chat (concat (map typed_turn turns)))
          = drop (length turns - 3) (map (\<lambda>(q, r). contextEntry q r) turns))
   \<and> (length prev = 3 \<longrightarrow> update_context entry prev = tl prev @ [entry])"
proof (intro conjI impI)
  show "length (conversationContext (run_chat events)) \<le> 3"
    unfolding run_chat_def by (rule foldl_chat_bounded) (simp add: initial_chat_state_def)
qed (simp_all add: successful_turns_context update_context_full)

text \<open>
  An arbitrary run stays within the bound; four successful turns leave the entries of
  the second, third and fourth.
\<close>

theorem context_is_bounded_witness:
  "length (conversationContext (run_chat
      [Edit ''q1'', Send None (Responded (ok_result ''SELECT 1'')), ClearContext,
       Edit ''q2'', Send None Threw, Edit ''q3'',
       Send None (Responded (ok_result ''SELECT 3''))])) \<le> 3
   \<and> conversationContext (run_chat
        [Edit ''q1'', Send None (Responded (ok_result ''SELECT 1'')),
         Edit ''q2'', Send None (Responded (ok_result ''SELECT 2'')),
         Edit ''q3'', Send None (Responded (ok_result ''SELECT 3'')),
         Edit ''q4'', Send None (Responded (ok_result ''SELECT 4''))])
     = [''Q: q2'' @ [CHR 0x0A] @ ''T-SQL: SELECT 2'',
        ''Q: q3'' @ [CHR 0x0A] @ ''T-SQL: SELECT 3'',
        ''Q: q4'' @ [CHR 0x0A] @ ''T-SQL: SELECT 4'']
   \<and> update_context ''e4'' [''e1'', ''e2'', ''e3''] = [''e2'', ''e3'', ''e4'']"
proof -
  have t: "js_trim ''q1'' \<noteq> []" "js_trim ''q2'' \<noteq> []" "js_trim ''q3'' \<noteq> []" "js_trim ''q4'' \<noteq> []"
    by (simp_all add: js_trim_def js_isspace_def)
  from context_is_bounded [of
      "[Edit ''q1'', Send None (Responded (ok_result ''SELECT 1'')), ClearContext,
       Edit ''q2'', Send None Threw, Edit ''q3'',
       Send None (Responded (ok_result ''SELECT 3''))]"
      "[(''q1'', ok_result ''SELECT 1''), (''q2'', ok_result ''SELECT 2''),
        (''q3'', ok_result ''SELECT 3''), (''q4'', ok_result ''SELECT 4'')]"
      "[''e1'', ''e2'', ''e3'']" "''e4''"] t
  show ?thesis
    by (simp add: ok_result_def js_truthy_string_def contextEntry_def js_or_def typed_turn_def)
qed

text \<open>
  Claim C8. In a turn (a message that is sent: the question is not blank and no request
  is pending), an entry is appended to the conversation context if and only if the
  response has a true \<open>success\<close> and carries a query (present and not the empty
  string); when the response fails, carries no query, or the request throws, the
  conversation context is left unchanged.
\<close>

theorem context_updated_only_on_success:
  "(js_trim (js_or messageText (input st)) \<noteq> [] \<and> \<not> loading st
      \<and> success result \<and> query result = Some q \<and> q \<noteq> [] \<longrightarrow>
      conversationContext (sendMessage messageText (Responded result) st)
        = js_slice (- 2) (conversationContext st)
          @ [contextEntry (js_or messageText (input st)) result])
   \<and> (\<not> (success result \<and> (\<exists>q. query result = Some q \<and> q \<noteq> [])) \<longrightarrow>
      conversationContext (sendMessage messageText (Responded result) st)
        = conversationContext st)
   \<and> conversationContext (sendMessage messageText Threw st) = conversationContext st"
  by (auto simp: sendMessage_context update_context_def js_truthy_string_def
      split: option.splits)

theorem context_updated_only_on_success_witness:
  "conversationContext (sendMessage None (Responded (ok_result ''SELECT SUM(Amount) FROM Sales''))
       (initial_chat_state\<lparr>input := ''total sales?'', conversationContext := [''e1'']\<rparr>))
     = [''e1'', ''Q: total sales?'' @ [CHR 0x0A] @ ''T-SQL: SELECT SUM(Amount) FROM Sales'']
   \<and> conversationContext (sendMessage None (Responded failed_result)
       (initial_chat_state\<lparr>input := ''total sales?'', conversationContext := [''e1'']\<rparr>))
     = [''e1'']
   \<and> conversationContext (sendMessage None Threw
       (initial_chat_state\<lparr>input := ''total sales?'', conversationContext := [''e1'']\<rparr>))
     = [''e1'']"
proof -
  let ?st = "initial_chat_state\<lparr>input := ''total sales?'', conversationContext := [''e1'']\<rparr>"
  have t: "js_trim (js_or None (input ?st)) \<noteq> []"
    by (simp add: js_trim_def js_isspace_def js_or_def initial_chat_state_def)
  have l: "\<not> loading ?st"
    by (simp add: initial_chat_state_def)
  from context_updated_only_on_success [of None ?st "ok_result ''SELECT SUM(Amount) FROM Sales''"
      "''SELECT SUM(Amount) FROM Sales''"]
    context_updated_only_on_success [of None ?st failed_result "[]"] t l
  show ?thesis
    by (simp add: ok_result_def failed_result_def contextEntry_def js_or_def js_slice_def
        initial_chat_state_def)
qed

section \<open>Query validation\<close>

text \<open>
  The two string tests of \<open>validate_query\<close> against their meaning: \<open>startswith\<close> is
  "has the prefix", \<open>in\<close> is "occurs somewhere", and a prefix of the upper-cased text
  is the upper-cased prefix of the text.
\<close>

lemma startswith_prefix: "startswith s p = (\<exists>post. s = p @ post)"
proof
  assume "startswith s p"
  then have "take (length p) s = p"
    by (simp add: startswith_def)
  then have "s = p @ drop (length p) s"
    using append_take_drop_id [of "length p" s] by simp
  then show "\<exists>post. s = p @ post" ..
next
  assume "\<exists>post. s = p @ post"
  then obtain post where "s = p @ post" ..
  then show "startswith s p"
    by (simp add: startswith_def)
qed

lemma py_in_substring: "py_in sub s = (\<exists>pre post. s = pre @ sub @ post)"
proof (induction s)
  case Nil
  show ?case by simp
next
  case (Cons c cs)
  show ?case
  proof
    assume "py_in sub (c # cs)"
    then consider "startswith (c # cs) sub" | "py_in sub cs"
      by auto
    then show "\<exists>pre post. c # cs = pre @ sub @ post"
    proof cases
      case 1
      then obtain post where "c # cs = sub @ post"
        unfolding startswith_prefix ..
      then have "c # cs = [] @ sub @ post"
        by simp
      then show ?thesis by blast
    next
      case 2
      then obtain pre post where "cs = pre @ sub @ post"
        using Cons.IH by blast
      then have "c # cs = (c # pre) @ sub @ post"
        by simp
      then show ?thesis by blast
    qed
  next
    assume "\<exists>pre post. c # cs = pre @ sub @ post"
    then obtain pre post where e: "c # cs = pre @ sub @ post"
      by blast
    show "py_in sub (c # cs)"
    proof (cases pre)
      case Nil
      with e have "c # cs = sub @ post"
        by simp
      then have "startswith (c # cs) sub"
        unfolding startswith_prefix ..
      then show ?thesis by simp
    next
      case (Cons a pre')
      with e have "cs = pre' @ sub @ post"
        by simp
      then have "py_in sub cs"
        using Cons.IH by blast
      then show ?thesis by simp
    qed
  qed
qed

lemma startswith_upper:
  "startswith (py_upper t) p = (\<exists>h rest. t = h @ rest \<and> length h = length p \<and> py_upper h = p)"
proof
  assume "startswith (py_upper t) p"
  then have tk: "take (length p) (py_upper t) = p"
    by (simp add: startswith_def)
  have "length (take (length p) (py_upper t)) = min (length t) (length p)"
    by (simp add: py_upper_def)
  with tk have le: "length p \<le> length t"
    by simp
  have "t = take (length p) t @ drop (length p) t"
    by simp
  moreover have "length (take (length p) t) = length p"
    using le by simp
  moreover have "py_upper (take (length p) t) = p"
    using tk by (simp add: py_upper_def take_map)
  ultimately show "\<exists>h rest. t = h @ rest \<and> length h = length p \<and> py_upper h = p"
    by blast
next
  assume "\<exists>h rest. t = h @ rest \<and> length h = length p \<and> py_upper h = p"
  then obtain h rest where "t = h @ rest" "length h = length p" "py_upper h = p"
    by blast
  then show "startswith (py_upper t) p"
    by (simp add: startswith_def py_upper_def)
qed

text \<open>
  Claim C9. \<open>validate_query\<close> accepts a query of type \<open>dax\<close> if and only if its
  whitespace-trimmed text starts with eight characters that upper-case to \<open>EVALUATE\<close>;
  it rejects a query of type \<open>sql\<close> exactly when its upper-cased text contains one of
  \<open>DROP\<close>, \<open>DELETE\<close>, \<open>UPDATE\<close>, \<open>INSERT\<close>, \<open>TRUNCATE\<close> as a substring anywhere,
  inside identifiers too: a query that names a column \<open>LastUpdated\<close> is rejected, for it
  contains \<open>UPDATE\<close>.
\<close>

theorem validate_query_spec:
  "(validate_query q ''dax'' = Some True)
     = (\<exists>h rest. py_strip q = h @ rest \<and> length h = 8 \<and> py_upper h = ''EVALUATE'')
   \<and> (validate_query q ''sql'' = Some False)
     = (\<exists>keyword \<in> set [''DROP'', ''DELETE'', ''UPDATE'', ''INSERT'', ''TRUNCATE''].
          \<exists>pre post. py_upper q = pre @ keyword @ post)
   \<and> validate_query ''SELECT LastUpdated FROM Orders'' ''sql'' = Some False"
proof (intro conjI)
  have l: "length ''EVALUATE'' = 8"
    by simp
  have "validate_query q ''dax'' = Some (startswith (py_upper (py_strip q)) ''EVALUATE'')"
    by (simp add: validate_query_def)
  then show "(validate_query q ''dax'' = Some True)
     = (\<exists>h rest. py_strip q = h @ rest \<and> length h = 8 \<and> py_upper h = ''EVALUATE'')"
    unfolding startswith_upper l by simp
  have s: "validate_query x ''sql''
      = Some (\<not> list_ex (\<lambda>keyword. py_in keyword (py_upper x)) dangerous_keywords)" for x
    by (simp add: validate_query_def)
  show "(validate_query q ''sql'' = Some False)
     = (\<exists>keyword \<in> set [''DROP'', ''DELETE'', ''UPDATE'', ''INSERT'', ''TRUNCATE''].
          \<exists>pre post. py_upper q = pre @ keyword @ post)"
    unfolding s dangerous_keywords_def list_ex_iff py_in_substring by simp
  have "py_upper ''SELECT LastUpdated FROM Orders'' = ''SELECT LAST'' @ ''UPDATE'' @ ''D FROM ORDERS''"
    by (simp add: py_upper_def py_upper_char_def)
  then have "py_in ''UPDATE'' (py_upper ''SELECT LastUpdated FROM Orders'')"
    unfolding py_in_substring by blast
  then have "list_ex (\<lambda>keyword. py_in keyword (py_upper ''SELECT LastUpdated FROM Orders''))
      dangerous_keywords"
    unfolding list_ex_iff dangerous_keywords_def by simp
  then show "validate_query ''SELECT LastUpdated FROM Orders'' ''sql'' = Some False"
    unfolding s by simp
qed

theorem validate_query_spec_witness:
  "validate_query ''  evaluate TOPN(5, Sales)'' ''dax'' = Some True
   \<and> validate_query ''SELECT * FROM Sales'' ''dax'' = Some False
   \<and> validate_query ''select * from t; drop table t'' ''sql'' = Some False
   \<and> validate_query ''SELECT Name FROM Customers'' ''sql'' = Some True"
proof -
  have d: "py_strip ''  evaluate TOPN(5, Sales)'' = ''evaluate'' @ '' TOPN(5, Sales)''"
    by (simp add: py_strip_def py_isspace_def)
  have u: "py_upper ''evaluate'' = ''EVALUATE''"
    by (simp add: py_upper_def py_upper_char_def)
  have "\<exists>h rest. py_strip ''  evaluate TOPN(5, Sales)'' = h @ rest \<and> length h = 8
      \<and> py_upper h = ''EVALUATE''"
    using d u by (intro exI [of _ "''evaluate''"] exI [of _ "'' TOPN(5, Sales)''"]) simp
  then have a: "validate_query ''  evaluate TOPN(5, Sales)'' ''dax'' = Some True"
    using validate_query_spec [of "''  evaluate TOPN(5, Sales)''"] by blast
  have "py_upper ''select * from t; drop table t''
      = ''SELECT * FROM T; '' @ ''DROP'' @ '' TABLE T''"
    by (simp add: py_upper_def py_upper_char_def)
  then have "\<exists>keyword \<in> set [''DROP'', ''DELETE'', ''UPDATE'', ''INSERT'', ''TRUNCATE''].
      \<exists>pre post. py_upper ''select * from t; drop table t'' = pre @ keyword @ post"
    by (intro bexI [of _ "''DROP''"]) (blast, simp)
  then have b: "validate_query ''select * from t; drop table t'' ''sql'' = Some False"
    using validate_query_spec [of "''select * from t; drop table t''"] by blast
  have n: "validate_query ''SELECT * FROM Sales'' ''dax'' = Some False"
    by (simp add: validate_query_def startswith_def py_upper_def py_upper_char_def
        py_strip_def py_isspace_def)
  have y: "validate_query ''SELECT Name FROM Customers'' ''sql'' = Some True"
    by (simp add: validate_query_def startswith_def py_upper_def py_upper_char_def
        dangerous_keywords_def)
  from a b n y show ?thesis
    by simp
qed

text \<open>
  A no-break space in front of the query is stripped like any other white space.
\<close>

lemma strip_no_break_space:
  "validate_query (CHR 0xA0 # ''EVALUATE Sales'') ''dax'' = Some True"
  by (simp add: validate_query_def startswith_def py_upper_def py_upper_char_def
      py_strip_def py_isspace_def)

section \<open>The row cap of the executor\<close>



section \<open>Falsy cells\<close>

text \<open>
  A cell whose value is falsy prints as the empty string, quoted as \<open>""\<close> in the CSV;
  two cells that are both falsy, or equal, print alike. A column that the row does not
  have, but every object inherits, is not falsy.
\<close>

lemma js_number_Rep:
  "\<bar>n\<bar> \<le> 9007199254740991 \<Longrightarrow> Rep_safe_integer (Abs_safe_integer n) = n"
  by (simp add: Abs_safe_integer_inverse)

lemma js_number_zero_falsy: "\<not> js_truthy (js_number 0)"
  by (simp add: js_number_def js_number_Rep)

lemma cell_text_falsy: "\<not> js_truthy (row_get row col) \<Longrightarrow> cell_text row col = []"
  by (simp add: cell_text_def js_or_empty_def)

lemma cell_text_truthy:
  "js_truthy (row_get row col) \<Longrightarrow> cell_text row col = js_String (row_get row col)"
  by (simp add: cell_text_def js_or_empty_def)

lemma csv_field_falsy:
  "\<not> js_truthy (row_get row col) \<Longrightarrow> csv_field row col = [CHR 0x22, CHR 0x22]"
  by (simp add: csv_field_def cell_text_falsy double_quotes_def)

lemma cell_text_same_or_falsy:
  "row_get row col = row_get row' col \<or> (\<not> js_truthy (row_get row col) \<and> \<not> js_truthy (row_get row' col))
   \<Longrightarrow> cell_text row col = cell_text row' col"
  by (auto simp: cell_text_def js_or_empty_def)

lemma inherited_member_is_printed:
  "cell_text [(''Region'', JString ''North'')] ''constructor''
     = ''function Object() { [native code] }''"
  by (simp add: cell_text_def js_or_empty_def row_get_def Object_prototype_def)

text \<open>
  Claim C10. In the data table and in its CSV export, every cell whose value is falsy
  in JavaScript (the number \<open>0\<close>, \<open>false\<close>, \<open>null\<close>, the empty string, and
  \<open>undefined\<close>) is rendered, and exported, as the empty string, through
  \<open>String(value || '')\<close>: a rendered row is the list of the texts of its truthy
  cells, with the empty string for each falsy one, and the exported file is the header
  line followed by one line per row of these texts in double quotes. So two rows that
  differ only in which falsy value a cell holds, a numeric zero and a missing value for
  one, render to the same cells and export to the same CSV content, in both versions of
  the table.
\<close>

theorem falsy_cells_are_empty:
  "(\<not> js_truthy (row_get row col) \<longrightarrow>
      cell_text row col = [] \<and> csv_field row col = [CHR 0x22, CHR 0x22])
   \<and> (row_get row col \<in> {js_number 0, JBool False, JNull, JString [], JUndefined} \<longrightarrow>
      cell_text row col = [])
   \<and> render_row columns row
       = map (\<lambda>col. if js_truthy (row_get row col) then js_String (row_get row col) else [])
           columns
   \<and> exportToCSV_inline columns rows
       = Some (join [CHR 0x0A]
           (join '','' columns
            # map (\<lambda>row. join '','' (map (\<lambda>col.
                  if js_truthy (row_get row col)
                  then [CHR 0x22] @ double_quotes (js_String (row_get row col)) @ [CHR 0x22]
                  else [CHR 0x22, CHR 0x22]) columns)) rows))
   \<and> exportToCSV columns rows
       = (if rows = [] then None else exportToCSV_inline columns rows)
   \<and> ((\<forall>col \<in> set columns. row_get row col = row_get row' col
          \<or> (\<not> js_truthy (row_get row col) \<and> \<not> js_truthy (row_get row' col))) \<longrightarrow>
      render_row columns row = render_row columns row'
      \<and> csvContent columns (before @ row # after) = csvContent columns (before @ row' # after)
      \<and> exportToCSV columns (before @ row # after) = exportToCSV columns (before @ row' # after)
      \<and> exportToCSV_inline columns (before @ row # after)
          = exportToCSV_inline columns (before @ row' # after))"
proof (intro conjI impI)
  assume "\<not> js_truthy (row_get row col)"
  then show "cell_text row col = []" "csv_field row col = [CHR 0x22, CHR 0x22]"
    by (simp_all add: cell_text_falsy csv_field_falsy)
next
  assume "row_get row col \<in> {js_number 0, JBool False, JNull, JString [], JUndefined}"
  then have "\<not> js_truthy (row_get row col)"
    using js_number_zero_falsy by auto
  then show "cell_text row col = []"
    by (rule cell_text_falsy)
next
  show "render_row columns row
       = map (\<lambda>col. if js_truthy (row_get row col) then js_String (row_get row col) else [])
           columns"
    by (simp add: render_row_def cell_text_def js_or_empty_def)
next
  have f: "csv_field r c
      = (if js_truthy (row_get r c)
         then [CHR 0x22] @ double_quotes (js_String (row_get r c)) @ [CHR 0x22]
         else [CHR 0x22, CHR 0x22])" for r c
    by (simp add: csv_field_def cell_text_def js_or_empty_def double_quotes_def)
  show "exportToCSV_inline columns rows
       = Some (join [CHR 0x0A]
           (join '','' columns
            # map (\<lambda>row. join '','' (map (\<lambda>col.
                  if js_truthy (row_get row col)
                  then [CHR 0x22] @ double_quotes (js_String (row_get row col)) @ [CHR 0x22]
                  else [CHR 0x22, CHR 0x22]) columns)) rows))"
    unfolding exportToCSV_inline_def csvContent_def f ..
next
  show "exportToCSV columns rows
       = (if rows = [] then None else exportToCSV_inline columns rows)"
    by (simp add: exportToCSV_def exportToCSV_inline_def)
next
  assume a: "\<forall>col \<in> set columns. row_get row col = row_get row' col
          \<or> (\<not> js_truthy (row_get row col) \<and> \<not> js_truthy (row_get row' col))"
  then have c: "\<forall>col \<in> set columns. cell_text row col = cell_text row' col"
    using cell_text_same_or_falsy by blast
  then show r: "render_row columns row = render_row columns row'"
    by (simp add: render_row_def)
  from c have m: "map (csv_field row) columns = map (csv_field row') columns"
    by (simp add: csv_field_def)
  show e: "csvContent columns (before @ row # after) = csvContent columns (before @ row' # after)"
    unfolding csvContent_def by (simp only: map_append list.map m)
  from e
  show "exportToCSV columns (before @ row # after) = exportToCSV columns (before @ row' # after)"
    "exportToCSV_inline columns (before @ row # after)
          = exportToCSV_inline columns (before @ row' # after)"
    by (simp_all add: exportToCSV_def exportToCSV_inline_def)
qed

text \<open>
  A row with zero returns and a row without the column: the same cells, the same file;
  a seven is printed, and nothing is exported for an empty table.
\<close>

theorem falsy_cells_are_empty_witness:
  "cell_text [(''Region'', JString ''North''), (''Returns'', js_number 0)] ''Returns'' = []
   \<and> render_row [''Region'', ''Returns'']
        [(''Region'', JString ''North''), (''Returns'', js_number 0)]
     = [''North'', '''']
   \<and> render_row [''Region'', ''Returns''] [(''Region'', JString ''North'')]
     = [''North'', '''']
   \<and> exportToCSV_inline [''Region'', ''Returns'']
        [[(''Region'', JString ''North''), (''Returns'', js_number 0)]]
     = Some (''Region,Returns'' @ [CHR 0x0A, CHR 0x22] @ ''North'' @ [CHR 0x22] @ '',''
             @ [CHR 0x22, CHR 0x22])
   \<and> exportToCSV [''Region'', ''Returns'']
        [[(''Region'', JString ''North''), (''Returns'', js_number 0)]]
     = exportToCSV [''Region'', ''Returns''] [[(''Region'', JString ''North'')]]
   \<and> exportToCSV [''Region'', ''Returns''] [] = None
   \<and> cell_text [(''Region'', JString ''North''), (''Returns'', js_number 7)] ''Returns'' = ''7''"
proof -
  let ?r = "[(''Region'', JString ''North''), (''Returns'', js_number 0)]"
  let ?r' = "[(''Region'', JString ''North'')]"
  let ?cols = "[''Region'', ''Returns'']"
  have g: "row_get ?r ''Returns'' = js_number 0" "row_get ?r' ''Returns'' = JUndefined"
    "row_get ?r ''Region'' = JString ''North''" "row_get ?r' ''Region'' = JString ''North''"
    by (simp_all add: row_get_def Object_prototype_def)
  have z: "\<not> js_truthy (js_number 0)"
    by (rule js_number_zero_falsy)
  have s: "cell_text [(''Region'', JString ''North''), (''Returns'', js_number 7)] ''Returns'' = ''7''"
    by (simp add: cell_text_def js_or_empty_def row_get_def js_number_def js_number_Rep)
  have dq: "double_quotes ''North'' = ''North''"
    by (simp add: double_quotes_def)
  note t = falsy_cells_are_empty [of ?r "''Returns''" ?cols "[?r]" ?r' "[]" "[]"]
  note t' = falsy_cells_are_empty [of ?r' "''Returns''" ?cols "[]" ?r' "[]" "[]"]
  have 1: "cell_text ?r ''Returns'' = []"
    using g z t by simp
  have 2: "render_row ?cols ?r = [''North'', '''']"
    using g z t by simp
  have 3: "render_row ?cols ?r' = [''North'', '''']"
    using g t' by simp
  have 4: "exportToCSV_inline ?cols [?r]
     = Some (''Region,Returns'' @ [CHR 0x0A, CHR 0x22] @ ''North'' @ [CHR 0x22] @ '',''
             @ [CHR 0x22, CHR 0x22])"
    using g z dq t by simp
  have 5: "exportToCSV ?cols [?r] = exportToCSV ?cols [?r']"
    using g z
    by (simp add: exportToCSV_def csvContent_def csv_field_def cell_text_def js_or_empty_def)
  have 6: "exportToCSV ?cols [] = None"
    using t' by simp
  from 1 2 3 4 5 6 s show ?thesis
    by simp
qed

end
